theory Spec2Isabelle
  imports Main "HOL-Library.AList" "HOL-Library.Multiset"
begin

section \<open>Errors and formatting\<close>

text \<open>
  Go error values. The package's two sentinels and the two errors a
  \<^verbatim>\<open>context.Context\<close> reports are constants; \<open>New s\<close> is any other
  \<^verbatim>\<open>errors.New(s)\<close>; \<open>Errorf m ws\<close> is the value of a \<^verbatim>\<open>fmt.Errorf\<close> call whose
  formatted text is \<open>m\<close> and whose \<^verbatim>\<open>%w\<close> operands are \<open>ws\<close> (what \<^verbatim>\<open>Unwrap\<close>
  yields). An \<^verbatim>\<open>error\<close> that may be nil is an \<open>error option\<close>.
\<close>

datatype error =
    ErrExited
  | ErrTimeout
  | Canceled
  | DeadlineExceeded
  | New string
  | Errorf string "error list"

fun Error :: "error \<Rightarrow> string" where
  "Error ErrExited = ''runner exited early''"
| "Error ErrTimeout = ''one or more runners did not exit in time''"
| "Error Canceled = ''context canceled''"
| "Error DeadlineExceeded = ''context deadline exceeded''"
| "Error (New s) = s"
| "Error (Errorf m ws) = m"

text \<open>
  \<^verbatim>\<open>errors.Is(e, t)\<close>: \<open>t\<close> is \<open>e\<close> itself or is found by unwrapping, depth first.
  Go compares with \<^verbatim>\<open>==\<close>; the model compares the values.
\<close>

fun errors_Is :: "error \<Rightarrow> error \<Rightarrow> bool" where
  "errors_Is (Errorf m ws) t = (Errorf m ws = t \<or> list_ex (\<lambda>w. errors_Is w t) ws)"
| "errors_Is e t = (e = t)"

text \<open>The verbs \<^verbatim>\<open>%d\<close> (of an int) and \<^verbatim>\<open>%s\<close> (of a \<^verbatim>\<open>[]string\<close>).\<close>

definition digit :: "nat \<Rightarrow> char" where
  "digit d = ''0123456789'' ! (d mod 10)"

function fmt_nat :: "nat \<Rightarrow> string" where
  "fmt_nat n = (if n < 10 then [digit n] else fmt_nat (n div 10) @ [digit n])"
  by pat_completeness auto
termination
  by (relation "measure id") auto

definition fmt_d :: "int \<Rightarrow> string" where
  "fmt_d i = (if i < 0 then ''-'' @ fmt_nat (nat (- i)) else fmt_nat (nat i))"

fun join_sp :: "string list \<Rightarrow> string" where
  "join_sp [] = []"
| "join_sp [x] = x"
| "join_sp (x # y # ys) = x @ '' '' @ join_sp (y # ys)"

definition fmt_s_list :: "string list \<Rightarrow> string" where
  "fmt_s_list xs = ''['' @ join_sp xs @ '']''"

section \<open>Runners\<close>

text \<open>
  A call of \<^verbatim>\<open>Runner.Run(ctx)\<close> goes one of three ways: it returns an error
  (possibly nil), it panics with a payload, or it does not return, waiting for
  something the world does not bring. A payload is an
  \<^verbatim>\<open>error\<close> or any other non-nil value, of which the model keeps the \<^verbatim>\<open>%v\<close> text.
  A runner reads and changes the world \<open>'w\<close> around it; \<open>'c\<close> is the context it
  is handed.
\<close>

datatype payload = PanicError error | PanicValue string

datatype outcome = Return "error option" | Panic payload | Blocks

type_synonym ('c, 'w) runner = "'c \<Rightarrow> 'w \<Rightarrow> outcome \<times> 'w"

section \<open>Sequence\<close>

text \<open>
  \<^verbatim>\<open>fmt.Errorf("sequence [%d:%d]: %w", i, len(s)-1, err)\<close>
\<close>

definition sequence_error :: "nat \<Rightarrow> nat \<Rightarrow> error \<Rightarrow> error" where
  "sequence_error i len e =
     Errorf (''sequence ['' @ fmt_d (int i) @ '':'' @ fmt_d (int len - 1) @ '']: '' @ Error e) [e]"

text \<open>
  The loop of \<^verbatim>\<open>Sequence.Run\<close> from index \<open>i\<close> on; \<open>len\<close> is \<^verbatim>\<open>len(s)\<close>. A panic
  of a member is not recovered here and a member that never returns holds the loop.
\<close>

fun Sequence_loop :: "'c \<Rightarrow> nat \<Rightarrow> nat \<Rightarrow> ('c, 'w) runner list \<Rightarrow> 'w \<Rightarrow> outcome \<times> 'w" where
  "Sequence_loop ctx len i [] w = (Return None, w)"
| "Sequence_loop ctx len i (r # rs) w =
     (case r ctx w of
        (Return None, w') \<Rightarrow> Sequence_loop ctx len (Suc i) rs w'
      | (Return (Some e), w') \<Rightarrow> (Return (Some (sequence_error i len e)), w')
      | (Panic p, w') \<Rightarrow> (Panic p, w')
      | (Blocks, w') \<Rightarrow> (Blocks, w'))"

definition Sequence_Run :: "('c, 'w) runner list \<Rightarrow> ('c, 'w) runner" where
  "Sequence_Run s ctx w = Sequence_loop ctx (length s) 0 s w"

text \<open>
  To speak of which members ran, member \<open>i\<close> is wrapped so that each of its calls
  appends \<open>(i, ctx)\<close> to a log kept beside the world.
\<close>

definition logged :: "nat \<Rightarrow> ('c, 'w) runner \<Rightarrow> ('c, 'w \<times> (nat \<times> 'c) list) runner" where
  "logged i r ctx wl =
     (case r ctx (fst wl) of (out, w') \<Rightarrow> (out, (w', snd wl @ [(i, ctx)])))"

fun logged_from :: "nat \<Rightarrow> ('c, 'w) runner list \<Rightarrow> ('c, 'w \<times> (nat \<times> 'c) list) runner list" where
  "logged_from i [] = []"
| "logged_from i (r # rs) = logged i r # logged_from (Suc i) rs"

text \<open>
  \<open>returns_nil ctx rs w\<close>: the members \<open>rs\<close>, called one after the other from
  world \<open>w\<close>, all return nil, and leave the world given.
\<close>

fun returns_nil :: "'c \<Rightarrow> ('c, 'w) runner list \<Rightarrow> 'w \<Rightarrow> 'w option" where
  "returns_nil ctx [] w = Some w"
| "returns_nil ctx (r # rs) w =
     (case r ctx w of (Return None, w') \<Rightarrow> returns_nil ctx rs w' | (out, w') \<Rightarrow> None)"

definition calls :: "'c \<Rightarrow> nat \<Rightarrow> nat \<Rightarrow> (nat \<times> 'c) list" where
  "calls ctx i j = map (\<lambda>k. (k, ctx)) [i..<j]"

section \<open>Group\<close>

text \<open>
  \<^verbatim>\<open>type groupErr struct { runner string; err error }\<close>, the entry a member's
  goroutine puts on the channel \<^verbatim>\<open>errs\<close>.
\<close>

record groupErr =
  runner :: string
  err :: "error option"

text \<open>
  What a spawned goroutine does to the rest of the program: the sends it makes on its
  channel, or a panic that nobody recovers, which ends the whole process.
\<close>

datatype 'a goroutine = Sends "'a list" | Crashes payload

text \<open>
  The deferred \<^verbatim>\<open>recover\<close> of a member's goroutine and of \<^verbatim>\<open>Go\<close>:
  \<^verbatim>\<open>fmt.Errorf(pre + ": %w", r.(error))\<close> when the payload is an error,
  \<^verbatim>\<open>fmt.Errorf(pre + ": %v", r)\<close> otherwise.
\<close>

fun recovered :: "string \<Rightarrow> payload \<Rightarrow> error" where
  "recovered pre (PanicError e) = Errorf (pre @ '': '' @ Error e) [e]"
| "recovered pre (PanicValue v) = Errorf (pre @ '': '' @ v) []"

text \<open>
  The goroutine \<^verbatim>\<open>Group.run\<close> starts for the member \<open>name\<close>, given how the
  member's \<^verbatim>\<open>Run\<close> ends.
\<close>

fun member :: "string \<Rightarrow> outcome \<Rightarrow> groupErr goroutine" where
  "member name (Return e) = Sends [\<lparr>runner = name, err = e\<rparr>]"
| "member name (Panic p) = Sends [\<lparr>runner = name, err = Some (recovered ''run.Group recover'' p)\<rparr>]"
| "member name Blocks = Sends []"

text \<open>
  The local variables of \<^verbatim>\<open>Group.run\<close> that the consuming loop changes.
  \<open>exited\<close> is the map of that name, kept as an association list with one pair for
  each key and read with \<open>map_of\<close>; the order of its pairs means nothing.
  \<open>exitTimeout\<close> tells whether
  the channel of that name has been set by \<^verbatim>\<open>time.After\<close> (a nil channel is never
  ready). \<open>cancelled\<close> tells whether \<^verbatim>\<open>cancel\<close> of the derived context has been
  called.
\<close>

record run_state =
  exited :: "(string \<times> bool) list"
  cause :: "error option"
  exitTimeout :: bool
  cancelled :: bool

text \<open>
  The loop sees of the Group \<^verbatim>\<open>g\<close> its keys, the names of the members, and of the
  members the entries their goroutines send; so a Group is given here by its keys, in
  the order \<^verbatim>\<open>range g\<close> yields them, and \<^verbatim>\<open>len(g)\<close> is their number. The state
  before the loop: \<^verbatim>\<open>exited[k] = false\<close> for each key, no cause, no timer.
\<close>

definition start :: "string list \<Rightarrow> run_state" where
  "start names =
     \<lparr>exited = fold (\<lambda>k m. AList.update k False m) names [],
      cause = None, exitTimeout = False, cancelled = False\<rparr>"

text \<open>\<^verbatim>\<open>fmt.Errorf("run.Group[%s]: %w", gerr.runner, e)\<close>\<close>

definition group_error :: "string \<Rightarrow> error \<Rightarrow> error" where
  "group_error name e = Errorf (''run.Group['' @ name @ '']: '' @ Error e) [e]"

text \<open>The branch \<^verbatim>\<open>case gerr := <-errs\<close> of the select.\<close>

definition on_recv :: "bool \<Rightarrow> groupErr \<Rightarrow> run_state \<Rightarrow> run_state" where
  "on_recv cancelOnExit gerr st =
     (let st1 = st\<lparr>exited := AList.update (runner gerr) True (exited st)\<rparr>;
          st2 = (case (cause st1, err gerr) of
                   (None, Some e) \<Rightarrow> st1\<lparr>cause := Some (group_error (runner gerr) e)\<rparr>
                 | _ \<Rightarrow> st1);
          st3 = (if err gerr = None \<and> cancelOnExit \<and> cause st2 = None
                 then st2\<lparr>cause := Some (group_error (runner gerr) ErrExited)\<rparr>
                 else st2)
      in if cause st3 \<noteq> None then st3\<lparr>cancelled := True, exitTimeout := True\<rparr> else st3)"

text \<open>
  The branch \<^verbatim>\<open>case <-exitTimeout\<close>. Go yields the keys of a map in an order it
  chooses anew at each \<^verbatim>\<open>range\<close>; \<open>ord\<close> is the order in which
  \<^verbatim>\<open>for name, done := range exited\<close> yields them this time, each key once
  (\<open>range_exited\<close>). \<open>running\<close> collects, in that order, the names whose \<open>done\<close>
  is false, and the error is
  \<^verbatim>\<open>fmt.Errorf("%s: %w: shutdown cause: %w", running, ErrTimeout, cause)\<close>. A nil
  operand of \<^verbatim>\<open>%w\<close> prints as \<^verbatim>\<open>%!w(<nil>)\<close> and is not wrapped.
\<close>

definition range_exited :: "run_state \<Rightarrow> string list \<Rightarrow> bool" where
  "range_exited st ord = (mset ord = mset (map fst (exited st)))"

definition running :: "run_state \<Rightarrow> string list \<Rightarrow> string list" where
  "running st ord = filter (\<lambda>name. map_of (exited st) name = Some False) ord"

definition timeout_error :: "string list \<Rightarrow> error option \<Rightarrow> error" where
  "timeout_error names c =
     (case c of
        Some e \<Rightarrow> Errorf (fmt_s_list names @ '': '' @ Error ErrTimeout @ '': shutdown cause: '' @ Error e)
                    [ErrTimeout, e]
      | None \<Rightarrow> Errorf (fmt_s_list names @ '': '' @ Error ErrTimeout @ '': shutdown cause: %!w(<nil>)'')
                    [ErrTimeout])"

definition on_timeout :: "run_state \<Rightarrow> string list \<Rightarrow> error" where
  "on_timeout st ord = timeout_error (running st ord) (cause st)"

text \<open>
  What the select of the loop can take: an entry from \<^verbatim>\<open>errs\<close>, or the firing of
  the timer, which comes with the order \<open>ord\<close> in which the map \<open>exited\<close> is then
  ranged over. The loop \<^verbatim>\<open>for range g\<close> makes \<^verbatim>\<open>len(g)\<close> rounds; \<open>loop c n st evs\<close>
  has \<open>n\<close> rounds left and is offered the events \<open>evs\<close> in turn. It ends by
  completing its rounds, by the return in the timer branch, or it is left waiting in
  the select (with the rounds it has left) when nothing more is offered. The firing
  of a timer is not taken while \<open>exitTimeout\<close> is nil.
\<close>

datatype event = Recv groupErr | Timer "string list"

datatype loop_end = Completed run_state | TimedOut error run_state | Waiting nat run_state

fun loop :: "bool \<Rightarrow> nat \<Rightarrow> run_state \<Rightarrow> event list \<Rightarrow> loop_end" where
  "loop c 0 st evs = Completed st"
| "loop c (Suc n) st [] = Waiting (Suc n) st"
| "loop c (Suc n) st (Recv gerr # evs) = loop c n (on_recv c gerr st) evs"
| "loop c (Suc n) st (Timer ord # evs) =
     (if exitTimeout st then TimedOut (on_timeout st ord) st else loop c (Suc n) st evs)"

fun end_state :: "loop_end \<Rightarrow> run_state" where
  "end_state (Completed st) = st"
| "end_state (TimedOut e st) = st"
| "end_state (Waiting n st) = st"

text \<open>
  A call of \<^verbatim>\<open>Group.run\<close> returns an error (possibly nil) or has not returned.
  With it comes the state of the locals; on a return the deferred \<^verbatim>\<open>cancel\<close> has
  run.
\<close>

datatype result = Returns "error option" | NoReturn

definition returning :: "error option \<Rightarrow> run_state \<Rightarrow> result \<times> run_state" where
  "returning r st = (Returns r, st\<lparr>cancelled := True\<rparr>)"

text \<open>
  \<^verbatim>\<open>Group.run\<close> as in \<^verbatim>\<open>src/unnamed/part_002\<close>. \<open>inCtxErr\<close> is what
  \<^verbatim>\<open>inCtx.Err()\<close> yields when the loop is over. \<^verbatim>\<open>Group.Run\<close> and the runner made
  by \<^verbatim>\<open>WithoutCancel\<close> call it with \<^verbatim>\<open>cancelOnExit\<close> true and false.
\<close>

definition Group_run :: "string list \<Rightarrow> bool \<Rightarrow> error option \<Rightarrow> event list \<Rightarrow> result \<times> run_state" where
  "Group_run g cancelOnExit inCtxErr evs =
     (case loop cancelOnExit (length g) (start g) evs of
        Completed st \<Rightarrow>
          if inCtxErr = Some Canceled then returning None st else returning (cause st) st
      | TimedOut e st \<Rightarrow> returning (Some e) st
      | Waiting n st \<Rightarrow> (NoReturn, st))"

text \<open>
  \<^verbatim>\<open>Group.run\<close> as in \<^verbatim>\<open>src/unnamed/part_001\<close>, which does not keep the context
  it was given and ends with \<^verbatim>\<open>return cause\<close>.
\<close>

definition Group_run_001 :: "string list \<Rightarrow> bool \<Rightarrow> error option \<Rightarrow> event list \<Rightarrow> result \<times> run_state" where
  "Group_run_001 g cancelOnExit inCtxErr evs =
     (case loop cancelOnExit (length g) (start g) evs of
        Completed st \<Rightarrow> returning (cause st) st
      | TimedOut e st \<Rightarrow> returning (Some e) st
      | Waiting n st \<Rightarrow> (NoReturn, st))"

definition Group_Run :: "string list \<Rightarrow> error option \<Rightarrow> event list \<Rightarrow> result \<times> run_state" where
  "Group_Run g = Group_run g True"

definition WithoutCancel :: "string list \<Rightarrow> error option \<Rightarrow> event list \<Rightarrow> result \<times> run_state" where
  "WithoutCancel g = Group_run g False"

section \<open>Notions used to state the properties of Group.run\<close>

fun is_Completed :: "loop_end \<Rightarrow> bool" where
  "is_Completed (Completed st) = True"
| "is_Completed (TimedOut e st) = False"
| "is_Completed (Waiting n st) = False"

text \<open>The entries among the events offered, and the names of the members they come from.\<close>

fun reports :: "event list \<Rightarrow> groupErr list" where
  "reports [] = []"
| "reports (Recv gerr # evs) = gerr # reports evs"
| "reports (Timer ord # evs) = reports evs"

definition reported :: "event list \<Rightarrow> string set" where
  "reported evs = set (map runner (reports evs))"

text \<open>
  The specification's cause: an exit qualifies when its error is not nil, or when it is
  nil and the Group cancels on exit; the cause is the first qualifying exit, wrapped
  with the member's name.
\<close>

fun first_cause :: "bool \<Rightarrow> groupErr list \<Rightarrow> error option" where
  "first_cause c [] = None"
| "first_cause c (gerr # gs) =
     (case err gerr of
        Some e \<Rightarrow> Some (group_error (runner gerr) e)
      | None \<Rightarrow> if c then Some (group_error (runner gerr) ErrExited) else first_cause c gs)"

text \<open>
  The derived context has been cancelled by the loop exactly when a cause is recorded,
  and the timer is armed exactly then.
\<close>

definition armed_inv :: "run_state \<Rightarrow> bool" where
  "armed_inv st =
     ((cancelled st \<longleftrightarrow> cause st \<noteq> None) \<and> (exitTimeout st \<longleftrightarrow> cause st \<noteq> None))"

section \<open>Go\<close>

text \<open>
  \<^verbatim>\<open>Go(ctx, r, res)\<close>: the goroutine sends on \<^verbatim>\<open>res\<close> what \<^verbatim>\<open>r.Run(ctx)\<close> returns, or
  the error its deferred \<^verbatim>\<open>recover\<close> makes of a panic.
\<close>

definition Go :: "('c, 'w) runner \<Rightarrow> 'c \<Rightarrow> 'w \<Rightarrow> (error option) goroutine \<times> 'w" where
  "Go r ctx w =
     (case r ctx w of
        (Return e, w') \<Rightarrow> (Sends [e], w')
      | (Panic p, w') \<Rightarrow> (Sends [Some (recovered ''run.Go recover'' p)], w')
      | (Blocks, w') \<Rightarrow> (Sends [], w'))"

section \<open>The members, the channel and the loop together\<close>

text \<open>
  One invocation of \<^verbatim>\<open>Group.run\<close> as a system: \<open>pending\<close> are the members whose
  goroutine has been started and has not sent its entry, \<open>errs\<close> is what the channel
  \<^verbatim>\<open>errs\<close> holds, oldest first, and \<open>taken\<close> are the events the select of the loop
  has taken, so that the loop stands where \<open>loop\<close> puts it after \<open>taken\<close>. After the
  \<^verbatim>\<open>go\<close> statements every member is pending and the channel is empty.
\<close>

record system =
  pending :: "string list"
  errs :: "groupErr list"
  taken :: "event list"

definition launch :: "string list \<Rightarrow> system" where
  "launch g = \<lparr>pending = g, errs = [], taken = []\<rparr>"

text \<open>
  What can happen next. \<open>Send name out\<close>: the \<^verbatim>\<open>Run\<close> of the pending member
  \<open>name\<close> has ended with \<open>out\<close> and its goroutine sends its entry, which needs room
  in the channel made by \<^verbatim>\<open>make(chan groupErr, len(g)+1)\<close>. \<open>Take\<close>: the loop, waiting
  in its select, receives the oldest entry. \<open>Fire ord\<close>: the loop, waiting in its
  select, takes the firing of the timer it has armed, and ranges over \<open>exited\<close> in the
  order \<open>ord\<close>. An action that cannot happen gives \<open>None\<close>.
\<close>

datatype action = Send string outcome | Take | Fire "string list"

fun act :: "string list \<Rightarrow> bool \<Rightarrow> action \<Rightarrow> system \<Rightarrow> system option" where
  "act g c (Send name out) s =
     (if name \<in> set (pending s) then
        (case member name out of
           Sends [gerr] \<Rightarrow>
             if length (errs s) < length g + 1
             then Some (s\<lparr>pending := remove1 name (pending s), errs := errs s @ [gerr]\<rparr>)
             else None
         | _ \<Rightarrow> None)
      else None)"
| "act g c Take s =
     (case (errs s, loop c (length g) (start g) (taken s)) of
        (gerr # rest, Waiting n st) \<Rightarrow> Some (s\<lparr>errs := rest, taken := taken s @ [Recv gerr]\<rparr>)
      | _ \<Rightarrow> None)"
| "act g c (Fire ord) s =
     (case loop c (length g) (start g) (taken s) of
        Waiting n st \<Rightarrow> if exitTimeout st then Some (s\<lparr>taken := taken s @ [Timer ord]\<rparr>) else None
      | _ \<Rightarrow> None)"

fun exec :: "string list \<Rightarrow> bool \<Rightarrow> action list \<Rightarrow> system \<Rightarrow> system option" where
  "exec g c [] s = Some s"
| "exec g c (a # as) s = (case act g c a s of None \<Rightarrow> None | Some s' \<Rightarrow> exec g c as s')"

text \<open>
  Every member is accounted for once: it is pending, or its entry is in the channel, or
  the loop has taken its entry.
\<close>

definition accounted :: "string list \<Rightarrow> system \<Rightarrow> bool" where
  "accounted g s =
     (mset (pending s) + mset (map runner (errs s)) + mset (map runner (reports (taken s))) = mset g)"

section \<open>Once\<close>













section \<open>Start and Ready\<close>

text \<open>
  The world of the member \<^verbatim>\<open>"ready"\<close> of the Group that \<^verbatim>\<open>Ready\<close> builds: what
  \<^verbatim>\<open>ctx.Err()\<close> yields at the moment, and the values sent on \<^verbatim>\<open>readych\<close> so far.
  The second runner of its Sequence sends \<^verbatim>\<open>ctx.Err()\<close> on \<^verbatim>\<open>readych\<close> and returns
  nil; \<^verbatim>\<open>Idle\<close> waits for \<^verbatim>\<open>ctx.Done()\<close> and returns nil.
\<close>

record start_world =
  ctx_err :: "error option"
  readych :: "error option list"

definition publish :: "('c, start_world) runner" where
  "publish ctx w = (Return None, w\<lparr>readych := readych w @ [ctx_err w]\<rparr>)"

definition Idle :: "('c, start_world) runner" where
  "Idle ctx w = (if ctx_err w = None then (Blocks, w) else (Return None, w))"

definition Ready_ready :: "('c, start_world) runner \<Rightarrow> ('c, start_world) runner" where
  "Ready_ready ready = Sequence_Run [ready, publish, Idle]"

text \<open>
  \<^verbatim>\<open>fmt.Errorf("runner not ready: %w", <-done)\<close> and the closure \<^verbatim>\<open>stop\<close>, given what
  the detached Group delivers on \<^verbatim>\<open>done\<close> (nothing, if it does not return).
\<close>

definition not_ready :: "error option \<Rightarrow> error" where
  "not_ready d =
     (case d of
        Some e \<Rightarrow> Errorf (''runner not ready: '' @ Error e) [e]
      | None \<Rightarrow> Errorf ''runner not ready: %!w(<nil>)'' [])"

definition stop :: "result \<Rightarrow> result" where
  "stop d =
     (case d of
        Returns (Some e) \<Rightarrow>
          Returns (Some (Errorf (''run.Start: runner shutdown with error: '' @ Error e) [e]))
      | Returns None \<Rightarrow> Returns None
      | NoReturn \<Rightarrow> NoReturn)"

text \<open>
  \<^verbatim>\<open>Start\<close> returns an error and whether it returns the closure \<^verbatim>\<open>stop\<close> rather than
  nil, or it does not return. It waits in \<^verbatim>\<open>err = <-readych\<close> for the first value sent
  on \<^verbatim>\<open>readych\<close>, which only the member \<^verbatim>\<open>"ready"\<close> sends; \<^verbatim>\<open>readych\<close> is closed only
  when \<^verbatim>\<open>Start\<close> returns. The member \<^verbatim>\<open>"runner"\<close> runs beside it in the detached Group
  and reaches \<^verbatim>\<open>Start\<close> through the world that \<^verbatim>\<open>"ready"\<close> sees and through \<open>d\<close>, what
  the Group delivers on \<^verbatim>\<open>done\<close>.
\<close>

datatype start_result = StartReturns "error option" bool | StartBlocks

definition Start :: "('c, start_world) runner \<Rightarrow> 'c \<Rightarrow> start_world \<Rightarrow> result \<Rightarrow> start_result" where
  "Start ready ctx w d =
     (case readych (snd (Ready_ready ready ctx w)) of
        [] \<Rightarrow> StartBlocks
      | None # vs \<Rightarrow> StartReturns None True
      | Some e # vs \<Rightarrow>
          (case d of
             Returns x \<Rightarrow> StartReturns (Some (not_ready x)) False
           | NoReturn \<Rightarrow> StartBlocks))"

section \<open>Runners used as examples\<close>

text \<open>
  The two members of \<^verbatim>\<open>TestSequence\<close>: one counts its calls in the world and
  returns nil, the other returns \<^verbatim>\<open>innerErr\<close>.
\<close>

definition addOne :: "(unit, nat) runner" where
  "addOne ctx w = (Return None, Suc w)"

definition failing :: "(unit, nat) runner" where
  "failing ctx w = (Return (Some (New ''inner'')), w)"


text \<open>A runner that panics with an error.\<close>

definition panicking :: "(unit, nat) runner" where
  "panicking ctx w = (Panic (PanicError (New ''boom'')), w)"

text \<open>A readiness probe that gives up with an error, and one that succeeds.\<close>

definition probe_fails :: "(unit, start_world) runner" where
  "probe_fails ctx w = (Return (Some (New ''not ready'')), w)"

definition probe_ok :: "(unit, start_world) runner" where
  "probe_ok ctx w = (Return None, w)"

section \<open>Sequence: proofs\<close>

lemma calls_step: "i < j \<Longrightarrow> (i, ctx) # calls ctx (Suc i) j = calls ctx i j"
  by (simp add: calls_def upt_conv_Cons)

lemma calls_same [simp]: "calls ctx i i = []"
  by (simp add: calls_def)

lemma Sequence_loop_error:
  "returns_nil ctx pre w = Some w1 \<Longrightarrow> r ctx w1 = (Return (Some e), w2) \<Longrightarrow>
   Sequence_loop ctx len i (pre @ r # post) w = (Return (Some (sequence_error (i + length pre) len e)), w2)"
proof (induction pre arbitrary: i w)
  case Nil
  then show ?case by simp
next
  case (Cons a pre)
  from Cons.prems(1) obtain w' where a: "a ctx w = (Return None, w')"
    and rest: "returns_nil ctx pre w' = Some w1"
    by (auto split: prod.splits outcome.splits option.splits)
  from Cons.IH [OF rest Cons.prems(2), of "Suc i"] a show ?case by simp
qed

lemma Sequence_loop_error_logged:
  "returns_nil ctx pre w = Some w1 \<Longrightarrow> r ctx w1 = (Return (Some e), w2) \<Longrightarrow>
   Sequence_loop ctx len i (logged_from i (pre @ r # post)) (w, l) =
     (Return (Some (sequence_error (i + length pre) len e)),
      (w2, l @ calls ctx i (Suc (i + length pre))))"
proof (induction pre arbitrary: i w l)
  case Nil
  then show ?case by (simp add: logged_def calls_def)
next
  case (Cons a pre)
  from Cons.prems(1) obtain w' where a: "a ctx w = (Return None, w')"
    and rest: "returns_nil ctx pre w' = Some w1"
    by (auto split: prod.splits outcome.splits option.splits)
  have "(i, ctx) # calls ctx (Suc i) (Suc (Suc (i + length pre))) = calls ctx i (Suc (Suc (i + length pre)))"
    by (rule calls_step) simp
  with Cons.IH [OF rest Cons.prems(2), of "Suc i" "l @ [(i, ctx)]"] a show ?case
    by (simp add: logged_def)
qed

lemma Sequence_loop_all_nil:
  "returns_nil ctx s w = Some w' \<Longrightarrow> Sequence_loop ctx len i s w = (Return None, w')"
proof (induction s arbitrary: i w)
  case Nil
  then show ?case by simp
next
  case (Cons a s)
  from Cons.prems obtain w1 where a: "a ctx w = (Return None, w1)"
    and rest: "returns_nil ctx s w1 = Some w'"
    by (auto split: prod.splits outcome.splits option.splits)
  from Cons.IH [OF rest, of "Suc i"] a show ?case by simp
qed

lemma Sequence_loop_all_nil_logged:
  "returns_nil ctx s w = Some w' \<Longrightarrow>
   Sequence_loop ctx len i (logged_from i s) (w, l) = (Return None, (w', l @ calls ctx i (i + length s)))"
proof (induction s arbitrary: i w l)
  case Nil
  then show ?case by simp
next
  case (Cons a s)
  from Cons.prems obtain w1 where a: "a ctx w = (Return None, w1)"
    and rest: "returns_nil ctx s w1 = Some w'"
    by (auto split: prod.splits outcome.splits option.splits)
  have "(i, ctx) # calls ctx (Suc i) (Suc (i + length s)) = calls ctx i (Suc (i + length s))"
    by (rule calls_step) simp
  with Cons.IH [OF rest, of "Suc i" "l @ [(i, ctx)]"] a show ?case
    by (simp add: logged_def)
qed

lemma length_logged_from [simp]: "length (logged_from i s) = length s"
  by (induction s arbitrary: i) auto

lemma digit_char_value:
  "(k::nat) < 10 \<Longrightarrow> of_char (''0123456789'' ! k) = (48 + k :: nat)"
proof -
  assume "k < 10"
  then have "k = 0 \<or> k = 1 \<or> k = 2 \<or> k = 3 \<or> k = 4 \<or> k = 5 \<or> k = 6 \<or> k = 7 \<or> k = 8 \<or> k = 9"
    by presburger
  then show ?thesis by (elim disjE) simp_all
qed

lemma digit_value: "of_char (digit d) = (48 + d mod 10 :: nat)"
  unfolding digit_def by (rule digit_char_value) simp

lemma digit_in: "digit d \<in> set ''0123456789''"
proof -
  have "d mod 10 < length ''0123456789''" by simp
  then show ?thesis unfolding digit_def by (rule nth_mem)
qed

lemma fmt_nat_nonempty: "fmt_nat n \<noteq> []"
  by (subst fmt_nat.simps) simp

lemma fmt_nat_value: "foldl (\<lambda>a ch. 10 * a + (of_char ch - 48)) 0 (fmt_nat n) = n"
proof (induction n rule: fmt_nat.induct)
  case (1 n)
  show ?case
  proof (cases "n < 10")
    case True
    then show ?thesis by (subst fmt_nat.simps) (simp add: digit_value)
  next
    case False
    with "1.IH" show ?thesis by (subst fmt_nat.simps) (simp add: digit_value)
  qed
qed

lemma fmt_nat_digits: "set (fmt_nat n) \<subseteq> set ''0123456789''"
proof (induction n rule: fmt_nat.induct)
  case (1 n)
  show ?case
  proof (cases "n < 10")
    case True
    with digit_in [of n] show ?thesis by (subst fmt_nat.simps) simp
  next
    case False
    with "1.IH" digit_in [of n] show ?thesis by (subst fmt_nat.simps) simp
  qed
qed

lemma fmt_nat_no_leading_zero: "0 < n \<Longrightarrow> hd (fmt_nat n) \<noteq> CHR ''0''"
proof (induction n rule: fmt_nat.induct)
  case (1 n)
  show ?case
  proof (cases "n < 10")
    case True
    have "of_char (digit n) = (48 + n mod 10 :: nat)" by (rule digit_value)
    with True "1.prems" have "of_char (digit n) \<noteq> (48 :: nat)" by simp
    then have "digit n \<noteq> CHR ''0''" by auto
    with True show ?thesis by (subst fmt_nat.simps) simp
  next
    case False
    then have "0 < n div 10" by simp
    with "1.IH" False have "hd (fmt_nat (n div 10)) \<noteq> CHR ''0''" by simp
    with False fmt_nat_nonempty [of "n div 10"] show ?thesis
      by (subst fmt_nat.simps) simp
  qed
qed

lemma fmt_d_nat: "fmt_d (int n) = fmt_nat n"
  by (simp add: fmt_d_def)

lemma sequence_error_text:
  "sequence_error (length pre) (length (pre @ r # post)) e =
     Errorf (''sequence ['' @ fmt_nat (length pre) @ '':'' @ fmt_nat (length pre + length post) @
             '']: '' @ Error e) [e]"
proof -
  have "int (length (pre @ r # post)) - 1 = int (length pre + length post)" by simp
  then show ?thesis by (simp only: sequence_error_def fmt_d_nat)
qed

lemma calls_map: "calls ctx i j = map (\<lambda>k. (k, ctx)) [i..<j]"
  by (simp add: calls_def)

text \<open>
  C6. \<^verbatim>\<open>Sequence.Run\<close> calls its members in order, each with the context it was
  given. If the members before some member all return nil and that member returns
  an error \<open>e\<close>, Run returns the error that reads \<^verbatim>\<open>sequence [i:n]: e\<close> and wraps
  \<open>e\<close>, where \<open>i\<close> is the member's index and \<open>n\<close> the last index of the Sequence,
  \<^verbatim>\<open>len(s)-1\<close>, both in decimal; the calls made are exactly one call of each member
  up to and including \<open>i\<close>, in order, and none of a later member. If every member
  returns nil, Run returns nil after exactly one call of each member, in order. The
  decimal text of a number consists of digits, their value is the number, and it
  begins with no zero unless the number is zero.
\<close>

theorem Sequence_Run_stops_at_first_error:
  "(returns_nil ctx pre w = Some w1 \<and> r ctx w1 = (Return (Some e), w2) \<longrightarrow>
      Sequence_Run (pre @ r # post) ctx w =
        (Return (Some (Errorf (''sequence ['' @ fmt_nat (length pre) @ '':'' @ fmt_nat (length pre + length post) @
                  '']: '' @ Error e) [e])), w2) \<and>
      Sequence_Run (logged_from 0 (pre @ r # post)) ctx (w, []) =
        (Return (Some (Errorf (''sequence ['' @ fmt_nat (length pre) @ '':'' @ fmt_nat (length pre + length post) @
                  '']: '' @ Error e) [e])),
         (w2, map (\<lambda>i. (i, ctx)) [0..<Suc (length pre)])) \<and>
      errors_Is (Errorf (''sequence ['' @ fmt_nat (length pre) @ '':'' @ fmt_nat (length pre + length post) @
                  '']: '' @ Error e) [e]) e) \<and>
   (returns_nil ctx s w = Some w' \<longrightarrow>
      Sequence_Run s ctx w = (Return None, w') \<and>
      Sequence_Run (logged_from 0 s) ctx (w, []) =
        (Return None, (w', map (\<lambda>i. (i, ctx)) [0..<length s]))) \<and>
   foldl (\<lambda>a ch. 10 * a + (of_char ch - 48)) 0 (fmt_nat k) = k \<and>
   set (fmt_nat k) \<subseteq> set ''0123456789'' \<and>
   fmt_nat k \<noteq> [] \<and>
   (0 < k \<longrightarrow> hd (fmt_nat k) \<noteq> CHR ''0'')"
proof (intro conjI impI)
  assume h: "returns_nil ctx pre w = Some w1 \<and> r ctx w1 = (Return (Some e), w2)"
  from h show "Sequence_Run (pre @ r # post) ctx w =
        (Return (Some (Errorf (''sequence ['' @ fmt_nat (length pre) @ '':'' @ fmt_nat (length pre + length post) @
                  '']: '' @ Error e) [e])), w2)"
    using Sequence_loop_error [of ctx pre w w1 r e w2 _ 0 post]
    by (simp add: Sequence_Run_def sequence_error_text del: length_append)
  from h show "Sequence_Run (logged_from 0 (pre @ r # post)) ctx (w, []) =
        (Return (Some (Errorf (''sequence ['' @ fmt_nat (length pre) @ '':'' @ fmt_nat (length pre + length post) @
                  '']: '' @ Error e) [e])),
         (w2, map (\<lambda>i. (i, ctx)) [0..<Suc (length pre)]))"
    using Sequence_loop_error_logged [of ctx pre w w1 r e w2 _ 0 post "[]"]
    by (simp add: Sequence_Run_def sequence_error_text calls_map del: length_append)
  show "errors_Is (Errorf (''sequence ['' @ fmt_nat (length pre) @ '':'' @ fmt_nat (length pre + length post) @
                  '']: '' @ Error e) [e]) e"
    by (cases e) simp_all
next
  assume h: "returns_nil ctx s w = Some w'"
  then show "Sequence_Run s ctx w = (Return None, w')"
    by (simp add: Sequence_Run_def Sequence_loop_all_nil)
  from h show "Sequence_Run (logged_from 0 s) ctx (w, []) =
        (Return None, (w', map (\<lambda>i. (i, ctx)) [0..<length s]))"
    using Sequence_loop_all_nil_logged [of ctx s w w' _ 0 "[]"]
    by (simp add: Sequence_Run_def calls_map)
next
  show "foldl (\<lambda>a ch. 10 * a + (of_char ch - 48)) 0 (fmt_nat k) = k" by (rule fmt_nat_value)
  show "set (fmt_nat k) \<subseteq> set ''0123456789''" by (rule fmt_nat_digits)
  show "fmt_nat k \<noteq> []" by (rule fmt_nat_nonempty)
next
  assume "0 < k"
  then show "hd (fmt_nat k) \<noteq> CHR ''0''" by (rule fmt_nat_no_leading_zero)
qed

theorem Sequence_Run_stops_at_first_error_witness:
  "returns_nil () [addOne] 0 = Some 1 \<and>
   failing () 1 = (Return (Some (New ''inner'')), 1) \<and>
   Sequence_Run [addOne, failing, addOne] () 0 =
     (Return (Some (Errorf ''sequence [1:2]: inner'' [New ''inner''])), 1) \<and>
   Sequence_Run (logged_from 0 [addOne, failing, addOne]) () (0, []) =
     (Return (Some (Errorf ''sequence [1:2]: inner'' [New ''inner''])), (1, [(0, ()), (1, ())])) \<and>
   returns_nil () [addOne, addOne, addOne, addOne, addOne, addOne, addOne, addOne, addOne, addOne] 0 = Some 10 \<and>
   failing () 10 = (Return (Some (New ''inner'')), 10) \<and>
   Sequence_Run (logged_from 0 ([addOne, addOne, addOne, addOne, addOne, addOne, addOne, addOne, addOne, addOne] @ failing # [addOne])) () (0, []) =
     (Return (Some (Errorf ''sequence [10:11]: inner'' [New ''inner''])), (10, [(0, ()), (1, ()), (2, ()), (3, ()), (4, ()), (5, ()), (6, ()), (7, ()), (8, ()), (9, ()), (10, ())])) \<and>
   returns_nil () [addOne, addOne] 0 = Some 2 \<and>
   Sequence_Run [addOne, addOne] () 0 = (Return None, 2) \<and>
   Sequence_Run (logged_from 0 [addOne, addOne]) () (0, []) = (Return None, (2, [(0, ()), (1, ())])) \<and>
   (0::nat) < 10 \<and> fmt_nat 10 = ''10'' \<and> hd (fmt_nat 10) \<noteq> CHR ''0''"
proof -
  have h1: "returns_nil () [addOne] 0 = Some 1"
    by (simp add: addOne_def)
  have h2: "failing () 1 = (Return (Some (New ''inner'')), 1)"
    "failing () 10 = (Return (Some (New ''inner'')), 10)"
    by (simp_all add: failing_def)
  have h3: "returns_nil () [addOne, addOne] 0 = Some 2"
    by (simp add: addOne_def numeral_2_eq_2)
  have h4: "returns_nil () [addOne, addOne, addOne, addOne, addOne, addOne, addOne, addOne, addOne, addOne] 0 = Some 10"
    by (simp add: addOne_def eval_nat_numeral)
  have f: "fmt_nat 1 = ''1''" "fmt_nat 2 = ''2''" "fmt_nat 10 = ''10''" "fmt_nat 11 = ''11''"
    by (simp_all add: digit_def)
  have u: "[0..<2] = [0, 1]" "[0..<11] = [0, 1, 2, 3, 4, 5, 6, 7, 8, 9, 10]"
    by (simp_all add: upt_rec)
  have l: "length [addOne] = 1" "length [addOne] + length [addOne] = 2" "Suc (length [addOne]) = 2"
    "length [addOne, addOne] = 2"
    "length [addOne, addOne, addOne, addOne, addOne, addOne, addOne, addOne, addOne, addOne] = 10" "length [addOne, addOne, addOne, addOne, addOne, addOne, addOne, addOne, addOne, addOne] + length [addOne] = 11" "Suc (length [addOne, addOne, addOne, addOne, addOne, addOne, addOne, addOne, addOne, addOne]) = 11"
    "(1::nat) + 1 = 2" "Suc 1 = 2" "(10::nat) + 1 = 11" "Suc 10 = 11"
    by simp_all
  note a = Sequence_Run_stops_at_first_error
    [of "()" "[addOne]" 0 1 failing "New ''inner''" 1 "[addOne]" "[addOne, addOne]" 2 10]
  note b = Sequence_Run_stops_at_first_error
    [of "()" "[addOne, addOne, addOne, addOne, addOne, addOne, addOne, addOne, addOne, addOne]" 0 10 failing "New ''inner''" 10 "[addOne]" "[addOne, addOne]" 2 10]
  have z: "(0::nat) < 10" by simp
  from a h1 h2 h3 z have "Sequence_Run ([addOne] @ failing # [addOne]) () 0 =
     (Return (Some (Errorf (''sequence ['' @ fmt_nat (length [addOne]) @ '':'' @
        fmt_nat (length [addOne] + length [addOne]) @ '']: '' @ Error (New ''inner'')) [New ''inner''])), 1) \<and>
   Sequence_Run (logged_from 0 ([addOne] @ failing # [addOne])) () (0, []) =
     (Return (Some (Errorf (''sequence ['' @ fmt_nat (length [addOne]) @ '':'' @
        fmt_nat (length [addOne] + length [addOne]) @ '']: '' @ Error (New ''inner'')) [New ''inner''])),
      (1, map (\<lambda>i. (i, ())) [0..<Suc (length [addOne])])) \<and>
   Sequence_Run [addOne, addOne] () 0 = (Return None, 2) \<and>
   Sequence_Run (logged_from 0 [addOne, addOne]) () (0, []) =
     (Return None, (2, map (\<lambda>i. (i, ())) [0..<length [addOne, addOne]])) \<and>
   hd (fmt_nat 10) \<noteq> CHR ''0''"
    by blast
  then have 1: "Sequence_Run ([addOne] @ failing # [addOne]) () 0 =
     (Return (Some (Errorf (''sequence ['' @ ''1'' @ '':'' @ ''2'' @ '']: '' @ Error (New ''inner''))
        [New ''inner''])), 1) \<and>
   Sequence_Run (logged_from 0 ([addOne] @ failing # [addOne])) () (0, []) =
     (Return (Some (Errorf (''sequence ['' @ ''1'' @ '':'' @ ''2'' @ '']: '' @ Error (New ''inner''))
        [New ''inner''])), (1, map (\<lambda>i. (i, ())) [0, 1])) \<and>
   Sequence_Run [addOne, addOne] () 0 = (Return None, 2) \<and>
   Sequence_Run (logged_from 0 [addOne, addOne]) () (0, []) =
     (Return None, (2, map (\<lambda>i. (i, ())) [0, 1])) \<and>
   hd (fmt_nat 10) \<noteq> CHR ''0''"
    by (simp only: l f u) simp
  from b h4 h2 have "Sequence_Run (logged_from 0 ([addOne, addOne, addOne, addOne, addOne, addOne, addOne, addOne, addOne, addOne] @ failing # [addOne])) () (0, []) =
     (Return (Some (Errorf (''sequence ['' @ fmt_nat (length [addOne, addOne, addOne, addOne, addOne, addOne, addOne, addOne, addOne, addOne]) @ '':'' @
        fmt_nat (length [addOne, addOne, addOne, addOne, addOne, addOne, addOne, addOne, addOne, addOne] + length [addOne]) @ '']: '' @ Error (New ''inner'')) [New ''inner''])),
      (10, map (\<lambda>i. (i, ())) [0..<Suc (length [addOne, addOne, addOne, addOne, addOne, addOne, addOne, addOne, addOne, addOne])]))"
    by blast
  then have 2: "Sequence_Run (logged_from 0 ([addOne, addOne, addOne, addOne, addOne, addOne, addOne, addOne, addOne, addOne] @ failing # [addOne])) () (0, []) =
     (Return (Some (Errorf (''sequence ['' @ ''10'' @ '':'' @ ''11'' @ '']: '' @ Error (New ''inner''))
        [New ''inner''])), (10, map (\<lambda>i. (i, ())) [0, 1, 2, 3, 4, 5, 6, 7, 8, 9, 10]))"
    by (simp only: l f u)
  have v: "Sequence_Run [addOne, failing, addOne] () 0 =
     (Return (Some (Errorf ''sequence [1:2]: inner'' [New ''inner''])), 1)"
    "Sequence_Run (logged_from 0 [addOne, failing, addOne]) () (0, []) =
     (Return (Some (Errorf ''sequence [1:2]: inner'' [New ''inner''])), (1, [(0, ()), (1, ())]))"
    "Sequence_Run (logged_from 0 ([addOne, addOne, addOne, addOne, addOne, addOne, addOne, addOne, addOne, addOne] @ failing # [addOne])) () (0, []) =
     (Return (Some (Errorf ''sequence [10:11]: inner'' [New ''inner''])), (10, [(0, ()), (1, ()), (2, ()), (3, ()), (4, ()), (5, ()), (6, ()), (7, ()), (8, ()), (9, ()), (10, ())]))"
    by (simp_all add: Sequence_Run_def sequence_error_def fmt_d_def addOne_def failing_def digit_def logged_def)
  from 1 2 v h1 h2 h3 h4 f z show ?thesis by simp
qed

section \<open>Group: proofs\<close>

lemma errors_Is_refl [simp]: "errors_Is e e"
  by (cases e) simp_all

lemma errors_Is_trans: "errors_Is a b \<Longrightarrow> errors_Is b c \<Longrightarrow> errors_Is a c"
proof (induction a b rule: errors_Is.induct)
  case (1 m ws t)
  show ?case
  proof (cases "Errorf m ws = t")
    case True
    with "1.prems" show ?thesis by simp
  next
    case False
    with "1.prems"(1) obtain w where w: "w \<in> set ws" "errors_Is w t"
      by (auto simp: list_ex_iff)
    with "1.IH" "1.prems"(2) have "errors_Is w c" by blast
    with w show ?thesis by (auto simp: list_ex_iff)
  qed
qed simp_all

lemma errors_Is_group_error: "errors_Is (group_error name e) e"
  by (simp add: group_error_def)

lemma errors_Is_timeout_error:
  "errors_Is (timeout_error rs c) ErrTimeout" "errors_Is (timeout_error rs (Some e)) e"
  by (simp_all add: timeout_error_def split: option.splits)

lemma cause_on_recv:
  "cause (on_recv c g st) =
     (case cause st of
        Some x \<Rightarrow> Some x
      | None \<Rightarrow> first_cause c [g])"
  by (simp add: on_recv_def Let_def split: option.splits)

lemma cancelled_on_recv:
  "cancelled (on_recv c g st) = (cancelled st \<or> cause (on_recv c g st) \<noteq> None)"
  by (auto simp add: on_recv_def Let_def split: option.splits)

lemma exitTimeout_on_recv:
  "exitTimeout (on_recv c g st) = (exitTimeout st \<or> cause (on_recv c g st) \<noteq> None)"
  by (auto simp add: on_recv_def Let_def split: option.splits)

lemma exited_on_recv:
  "exited (on_recv c g st) = AList.update (runner g) True (exited st)"
  by (auto simp add: on_recv_def Let_def split: option.splits)

lemma loop_append:
  "loop c n st evs = Waiting m st' \<Longrightarrow> loop c n st (evs @ evs') = loop c m st' evs'"
  by (induction c n st evs rule: loop.induct) (auto split: if_splits)

lemma loop_Waiting_pos: "loop c n st evs = Waiting m st' \<Longrightarrow> 0 < m"
  by (induction c n st evs rule: loop.induct) (auto split: if_splits)

lemma loop_TimedOut:
  "loop c n st evs = TimedOut e st' \<Longrightarrow> (\<exists>ord. e = on_timeout st' ord) \<and> exitTimeout st'"
  by (induction c n st evs rule: loop.induct) (auto split: if_splits)

lemma loop_invariant:
  "P st \<Longrightarrow> (\<And>g s. P s \<Longrightarrow> P (on_recv c g s)) \<Longrightarrow> P (end_state (loop c n st evs))"
  by (induction c n st evs rule: loop.induct) auto

lemma armed_inv_start: "armed_inv (start g)"
  by (simp add: armed_inv_def start_def)

lemma armed_inv_on_recv: "armed_inv st \<Longrightarrow> armed_inv (on_recv c g st)"
  by (auto simp add: armed_inv_def cancelled_on_recv exitTimeout_on_recv cause_on_recv split: option.splits)

lemma armed_inv_loop: "armed_inv (end_state (loop c n (start g) evs))"
  by (rule loop_invariant) (simp_all add: armed_inv_start armed_inv_on_recv)

lemma cause_kept: "cause st = Some x \<Longrightarrow> cause (end_state (loop c n st evs)) = Some x"
  by (rule loop_invariant) (simp_all add: cause_on_recv)

lemma cause_loop:
  "cause st = None \<Longrightarrow> \<not> exitTimeout st \<Longrightarrow>
   cause (end_state (loop c n st evs)) = first_cause c (take n (reports evs))"
proof (induction c n st evs rule: loop.induct)
  case (3 c n st gerr evs)
  show ?case
  proof (cases "cause (on_recv c gerr st)")
    case None
    with "3.prems" have "\<not> exitTimeout (on_recv c gerr st)"
      by (simp add: exitTimeout_on_recv)
    with None "3.IH" have "cause (end_state (loop c n (on_recv c gerr st) evs)) =
        first_cause c (take n (reports evs))" by simp
    moreover from None "3.prems" have "first_cause c [gerr] = None"
      by (simp add: cause_on_recv)
    then have "first_cause c (gerr # take n (reports evs)) = first_cause c (take n (reports evs))"
      by (simp split: option.splits if_splits)
    ultimately show ?thesis by simp
  next
    case (Some x)
    then have "cause (end_state (loop c n (on_recv c gerr st) evs)) = Some x"
      by (rule cause_kept)
    moreover from Some "3.prems" have "first_cause c [gerr] = Some x"
      by (simp add: cause_on_recv)
    then have "first_cause c (gerr # take n (reports evs)) = Some x"
      by (simp split: option.splits if_splits)
    ultimately show ?thesis by simp
  qed
qed simp_all

lemma cause_Group_loop:
  "cause (end_state (loop c (length g) (start g) evs)) = first_cause c (take (length g) (reports evs))"
  by (rule cause_loop) (simp_all add: start_def)

text \<open>
  C3. \<^verbatim>\<open>Group.run\<close> of \<^verbatim>\<open>part_002\<close> and that of \<^verbatim>\<open>part_001\<close> give the same outcome on
  every invocation, except when the loop completes (all members report before the
  timer fires) and \<^verbatim>\<open>inCtx.Err()\<close> is \<^verbatim>\<open>context.Canceled\<close>: then \<^verbatim>\<open>part_002\<close> returns
  nil and \<^verbatim>\<open>part_001\<close> the recorded cause. On the timeout path \<^verbatim>\<open>part_002\<close> returns the timeout error
  also under \<^verbatim>\<open>context.Canceled\<close>, and under \<^verbatim>\<open>context.DeadlineExceeded\<close> the two
  agree.
\<close>

theorem Group_run_variants:
  "(loop c (length g) (start g) evs = Completed st \<and> inCtxErr = Some Canceled \<longrightarrow>
      Group_run g c inCtxErr evs = returning None st \<and>
      Group_run_001 g c inCtxErr evs = returning (cause st) st) \<and>
   (\<not> (is_Completed (loop c (length g) (start g) evs) \<and> inCtxErr = Some Canceled) \<longrightarrow>
      Group_run g c inCtxErr evs = Group_run_001 g c inCtxErr evs) \<and>
   (loop c (length g) (start g) evs = TimedOut e st \<longrightarrow>
      Group_run g c (Some Canceled) evs = returning (Some e) st \<and>
      Group_run_001 g c (Some Canceled) evs = returning (Some e) st) \<and>
   Group_run g c (Some DeadlineExceeded) evs = Group_run_001 g c (Some DeadlineExceeded) evs"
  by (cases "loop c (length g) (start g) evs") (simp_all add: Group_run_def Group_run_001_def)

lemma loop_a_boom:
  "loop True (length [''a'']) (start [''a'']) [Recv \<lparr>runner = ''a'', err = Some (New ''boom'')\<rparr>] =
     Completed \<lparr>exited = [(''a'', True)], cause = Some (Errorf ''run.Group[a]: boom'' [New ''boom'']),
                exitTimeout = True, cancelled = True\<rparr>"
  by (simp add: start_def on_recv_def group_error_def)

lemma loop_foo_timer:
  "loop True (length [''foo'', ''bar'']) (start [''foo'', ''bar''])
     [Recv \<lparr>runner = ''foo'', err = Some (New ''inner'')\<rparr>, Timer [''foo'', ''bar'']] =
   TimedOut
     (Errorf ''[bar]: one or more runners did not exit in time: shutdown cause: run.Group[foo]: inner''
        [ErrTimeout, Errorf ''run.Group[foo]: inner'' [New ''inner'']])
     \<lparr>exited = [(''foo'', True), (''bar'', False)],
      cause = Some (Errorf ''run.Group[foo]: inner'' [New ''inner'']),
      exitTimeout = True, cancelled = True\<rparr>"
  by (simp add: start_def on_recv_def group_error_def on_timeout_def running_def
      timeout_error_def fmt_s_list_def)

theorem Group_run_variants_witness:
  "loop True (length [''a'']) (start [''a'']) [Recv \<lparr>runner = ''a'', err = Some (New ''boom'')\<rparr>] =
     Completed \<lparr>exited = [(''a'', True)], cause = Some (Errorf ''run.Group[a]: boom'' [New ''boom'']),
                exitTimeout = True, cancelled = True\<rparr> \<and>
   fst (Group_run [''a''] True (Some Canceled) [Recv \<lparr>runner = ''a'', err = Some (New ''boom'')\<rparr>]) =
     Returns None \<and>
   fst (Group_run_001 [''a''] True (Some Canceled) [Recv \<lparr>runner = ''a'', err = Some (New ''boom'')\<rparr>]) =
     Returns (Some (Errorf ''run.Group[a]: boom'' [New ''boom''])) \<and>
   \<not> (is_Completed (loop True (length [''a'']) (start [''a''])
          [Recv \<lparr>runner = ''a'', err = Some (New ''boom'')\<rparr>]) \<and> None = Some Canceled) \<and>
   Group_run [''a''] True None [Recv \<lparr>runner = ''a'', err = Some (New ''boom'')\<rparr>] =
     Group_run_001 [''a''] True None [Recv \<lparr>runner = ''a'', err = Some (New ''boom'')\<rparr>] \<and>
   fst (Group_run [''foo'', ''bar''] True (Some Canceled)
          [Recv \<lparr>runner = ''foo'', err = Some (New ''inner'')\<rparr>, Timer [''foo'', ''bar'']]) =
     Returns (Some (Errorf ''[bar]: one or more runners did not exit in time: shutdown cause: run.Group[foo]: inner''
        [ErrTimeout, Errorf ''run.Group[foo]: inner'' [New ''inner'']]))"
proof -
  note a = Group_run_variants [of True "[''a'']" "[Recv \<lparr>runner = ''a'', err = Some (New ''boom'')\<rparr>]"
      "\<lparr>exited = [(''a'', True)], cause = Some (Errorf ''run.Group[a]: boom'' [New ''boom'']),
                exitTimeout = True, cancelled = True\<rparr>" "Some Canceled"]
  note b = Group_run_variants [of True "[''a'']" "[Recv \<lparr>runner = ''a'', err = Some (New ''boom'')\<rparr>]"
      _ None]
  note c = Group_run_variants [of True "[''foo'', ''bar'']"
      "[Recv \<lparr>runner = ''foo'', err = Some (New ''inner'')\<rparr>, Timer [''foo'', ''bar'']]"
     "\<lparr>exited = [(''foo'', True), (''bar'', False)],
      cause = Some (Errorf ''run.Group[foo]: inner'' [New ''inner'']),
      exitTimeout = True, cancelled = True\<rparr>" _
      "Errorf ''[bar]: one or more runners did not exit in time: shutdown cause: run.Group[foo]: inner''
        [ErrTimeout, Errorf ''run.Group[foo]: inner'' [New ''inner'']]"]
  from a loop_a_boom have 1: "fst (Group_run [''a''] True (Some Canceled) [Recv \<lparr>runner = ''a'', err = Some (New ''boom'')\<rparr>]) =
     Returns None \<and>
   fst (Group_run_001 [''a''] True (Some Canceled) [Recv \<lparr>runner = ''a'', err = Some (New ''boom'')\<rparr>]) =
     Returns (Some (Errorf ''run.Group[a]: boom'' [New ''boom'']))"
    by (simp add: returning_def)
  from b have 2: "Group_run [''a''] True None [Recv \<lparr>runner = ''a'', err = Some (New ''boom'')\<rparr>] =
     Group_run_001 [''a''] True None [Recv \<lparr>runner = ''a'', err = Some (New ''boom'')\<rparr>]"
    by simp
  from c loop_foo_timer have 3: "fst (Group_run [''foo'', ''bar''] True (Some Canceled)
          [Recv \<lparr>runner = ''foo'', err = Some (New ''inner'')\<rparr>, Timer [''foo'', ''bar'']]) =
     Returns (Some (Errorf ''[bar]: one or more runners did not exit in time: shutdown cause: run.Group[foo]: inner''
        [ErrTimeout, Errorf ''run.Group[foo]: inner'' [New ''inner'']]))"
    by (simp add: returning_def)
  from 1 2 3 loop_a_boom show ?thesis by simp
qed

lemma cancelled_loop_iff:
  "cancelled (end_state (loop c n (start g) evs)) \<longleftrightarrow> cause (end_state (loop c n (start g) evs)) \<noteq> None"
  using armed_inv_loop [of c n g evs] by (simp add: armed_inv_def)





lemma loop_Completed_reports:
  "loop c n st evs = Completed st' \<Longrightarrow> n \<le> length (reports evs)"
  by (induction c n st evs rule: loop.induct) (auto split: if_splits)

lemma loop_TimedOut_cause:
  assumes "loop c n (start g) evs = TimedOut e st"
  shows "cause st \<noteq> None"
proof -
  from assms have "exitTimeout st" by (simp add: loop_TimedOut)
  moreover from assms armed_inv_loop [of c n g evs] have "armed_inv st" by simp
  ultimately show ?thesis by (simp add: armed_inv_def)
qed

text \<open>
  C9. Whatever events the loop has been offered, if it has called \<^verbatim>\<open>cancel\<close> on the
  derived context then a cause is recorded; and whenever \<^verbatim>\<open>Group.run\<close> returns,
  by completing its rounds or by the timeout, the derived context has been cancelled by
  the deferred \<^verbatim>\<open>cancel\<close>. Where that happens with no cause recorded, the loop has
  completed: it has taken an entry in each of its \<^verbatim>\<open>len(g)\<close> rounds, so no member is
  left to observe it.
\<close>

theorem cancel_only_after_cause:
  "(cancelled (end_state (loop c (length g) (start g) evs)) \<longrightarrow>
      cause (end_state (loop c (length g) (start g) evs)) \<noteq> None) \<and>
   (fst (Group_run g c inCtxErr evs) = Returns r \<longrightarrow> cancelled (snd (Group_run g c inCtxErr evs))) \<and>
   (fst (Group_run g c inCtxErr evs) = Returns r \<and> cause (snd (Group_run g c inCtxErr evs)) = None \<longrightarrow>
      is_Completed (loop c (length g) (start g) evs) \<and> length g \<le> length (reports evs))"
proof (intro conjI impI)
  assume "cancelled (end_state (loop c (length g) (start g) evs))"
  then show "cause (end_state (loop c (length g) (start g) evs)) \<noteq> None"
    by (simp add: cancelled_loop_iff)
next
  assume "fst (Group_run g c inCtxErr evs) = Returns r"
  then show "cancelled (snd (Group_run g c inCtxErr evs))"
    by (cases "loop c (length g) (start g) evs")
      (simp_all add: Group_run_def returning_def split: if_splits)
next
  assume h: "fst (Group_run g c inCtxErr evs) = Returns r \<and> cause (snd (Group_run g c inCtxErr evs)) = None"
  have both: "is_Completed (loop c (length g) (start g) evs) \<and> length g \<le> length (reports evs)"
  proof (cases "loop c (length g) (start g) evs")
    case (Completed st)
    then show ?thesis by (simp add: loop_Completed_reports)
  next
    case (TimedOut e st)
    from loop_TimedOut_cause [OF this] TimedOut h show ?thesis
      by (simp add: Group_run_def returning_def)
  next
    case (Waiting m st)
    with h show ?thesis by (simp add: Group_run_def)
  qed
  from both show "is_Completed (loop c (length g) (start g) evs)" by simp
  from both show "length g \<le> length (reports evs)" by simp
qed

lemma loop_a_nil_WithoutCancel:
  "loop False (length [''a'']) (start [''a'']) [Recv \<lparr>runner = ''a'', err = None\<rparr>] =
     Completed \<lparr>exited = [(''a'', True)], cause = None, exitTimeout = False, cancelled = False\<rparr>"
  by (simp add: start_def on_recv_def)

theorem cancel_only_after_cause_witness:
  "cancelled (end_state (loop True (length [''a'']) (start [''a''])
      [Recv \<lparr>runner = ''a'', err = Some (New ''boom'')\<rparr>])) \<and>
   cause (end_state (loop True (length [''a'']) (start [''a''])
      [Recv \<lparr>runner = ''a'', err = Some (New ''boom'')\<rparr>])) \<noteq> None \<and>
   fst (Group_run [''a''] False None [Recv \<lparr>runner = ''a'', err = None\<rparr>]) = Returns None \<and>
   cause (snd (Group_run [''a''] False None [Recv \<lparr>runner = ''a'', err = None\<rparr>])) = None \<and>
   cancelled (snd (Group_run [''a''] False None [Recv \<lparr>runner = ''a'', err = None\<rparr>])) \<and>
   is_Completed (loop False (length [''a'']) (start [''a'']) [Recv \<lparr>runner = ''a'', err = None\<rparr>]) \<and>
   length [''a''] \<le> length (reports [Recv \<lparr>runner = ''a'', err = None\<rparr>])"
proof -
  have 1: "cancelled (end_state (loop True (length [''a'']) (start [''a''])
      [Recv \<lparr>runner = ''a'', err = Some (New ''boom'')\<rparr>]))"
    using loop_a_boom by simp
  have 2: "fst (Group_run [''a''] False None [Recv \<lparr>runner = ''a'', err = None\<rparr>]) = Returns None"
    "cause (snd (Group_run [''a''] False None [Recv \<lparr>runner = ''a'', err = None\<rparr>])) = None"
    using loop_a_nil_WithoutCancel by (simp_all add: Group_run_def returning_def)
  from cancel_only_after_cause [of True "[''a'']" "[Recv \<lparr>runner = ''a'', err = Some (New ''boom'')\<rparr>]"]
    cancel_only_after_cause [of False "[''a'']" "[Recv \<lparr>runner = ''a'', err = None\<rparr>]" None None]
    1 2
  show ?thesis by simp
qed

lemma map_of_fold_update:
  "map_of (fold (\<lambda>k m. AList.update k False m) names al) k =
     (if k \<in> set names then Some False else map_of al k)"
  by (induction names arbitrary: al) (auto simp: AList.update_conv')

lemma distinct_fold_update:
  "distinct (map fst al) \<Longrightarrow> distinct (map fst (fold (\<lambda>k m. AList.update k False m) names al))"
  by (induction names arbitrary: al) (auto simp: AList.distinct_update)

lemma map_of_exited_start:
  "map_of (exited (start g)) k = (if k \<in> set g then Some False else None)"
  by (simp add: start_def map_of_fold_update)

lemma distinct_exited_start: "distinct (map fst (exited (start g)))"
  by (simp add: start_def distinct_fold_update)

lemma distinct_exited_loop:
  "distinct (map fst (exited st)) \<Longrightarrow> distinct (map fst (exited (end_state (loop c n st evs))))"
  by (rule loop_invariant) (simp_all add: exited_on_recv AList.distinct_update)

lemma map_of_exited_Waiting:
  "loop c n st evs = Waiting m st' \<Longrightarrow>
   map_of (exited st') k = (if k \<in> reported evs then Some True else map_of (exited st) k)"
proof (induction c n st evs rule: loop.induct)
  case (3 c n st gerr evs)
  from "3.IH" [OF "3.prems" [simplified]] show ?case
    by (auto simp: reported_def exited_on_recv AList.update_conv')
next
  case (4 c n st evs)
  then show ?case by (auto simp: reported_def split: if_splits)
qed (auto simp: reported_def)

lemma join_sp_concat:
  "join_sp (x # ys) = x @ concat (map (\<lambda>y. CHR '' '' # y) ys)"
  by (induction ys arbitrary: x) simp_all

lemma timeout_error_text:
  "timeout_error names (Some (Errorf m ws)) =
     Errorf (''['' @ (case names of [] \<Rightarrow> [] | x # ys \<Rightarrow> x @ concat (map (\<lambda>y. CHR '' '' # y) ys)) @
             '']: one or more runners did not exit in time: shutdown cause: '' @ m)
       [ErrTimeout, Errorf m ws]"
  by (cases names) (simp_all add: timeout_error_def fmt_s_list_def join_sp_concat)

lemma first_cause_Errorf:
  "first_cause c gs = Some e \<Longrightarrow> \<exists>m w. e = Errorf m [w]"
  by (induction gs) (auto simp: group_error_def split: option.splits if_splits)

lemma cause_Errorf:
  assumes "cause (end_state (loop c (length g) (start g) evs)) = Some e"
  shows "\<exists>m w. e = Errorf m [w]"
  using assms first_cause_Errorf by (simp add: cause_Group_loop) 

lemma running_Waiting:
  assumes "loop c (length g) (start g) evs = Waiting m st"
  shows "running st ord = filter (\<lambda>name. name \<in> set g \<and> name \<notin> reported evs) ord"
  unfolding running_def
  by (rule filter_cong) (auto simp: map_of_exited_Waiting [OF assms] map_of_exited_start)

lemma keys_exited_Waiting:
  assumes "loop c (length g) (start g) evs = Waiting m st"
  shows "fst ` set (exited st) = set g \<union> reported evs"
proof -
  have "fst ` set (exited st) = dom (map_of (exited st))" by (simp add: dom_map_of_conv_image_fst)
  also have "\<dots> = set g \<union> reported evs"
    by (auto simp: dom_def map_of_exited_Waiting [OF assms] map_of_exited_start split: if_splits)
  finally show ?thesis .
qed

lemma range_exited_Waiting:
  assumes "loop c (length g) (start g) evs = Waiting m st" and "range_exited st ord"
  shows "distinct ord" and "set ord = set g \<union> reported evs"
proof -
  from assms(1) have e: "end_state (loop c (length g) (start g) evs) = st" by simp
  from distinct_exited_loop [of "start g" c "length g" evs, OF distinct_exited_start] e
  have d: "distinct (map fst (exited st))" by simp
  from assms(2) have m: "mset ord = mset (map fst (exited st))" by (simp add: range_exited_def)
  from m d show "distinct ord" by (metis mset_eq_imp_distinct_iff)
  from m have "set ord = set (map fst (exited st))" by (rule mset_eq_setD)
  with keys_exited_Waiting [OF assms(1)] show "set ord = set g \<union> reported evs" by simp
qed

text \<open>
  C4. When the timer fires while the loop still waits for entries, \<^verbatim>\<open>Group.run\<close>
  returns at once, whatever would have come later. The error it returns reads
  \<^verbatim>\<open>[names]: one or more runners did not exit in time: shutdown cause: cause\<close> and
  wraps \<^verbatim>\<open>ErrTimeout\<close> and the recorded cause; the names, separated by single spaces,
  are the members that have not reported, each once and no other, in the order in which
  the map \<open>exited\<close> is ranged over.
\<close>

theorem timeout_names_running_members:
  "loop c (length g) (start g) evs = Waiting n st \<and> exitTimeout st \<and> range_exited st ord \<longrightarrow>
     (\<exists>m w. cause st = Some (Errorf m [w]) \<and>
        fst (Group_run g c inCtxErr (evs @ Timer ord # rest)) =
          Returns (Some (Errorf
            (''['' @
               (case filter (\<lambda>name. name \<in> set g \<and> name \<notin> reported evs) ord of
                  [] \<Rightarrow> []
                | x # ys \<Rightarrow> x @ concat (map (\<lambda>y. CHR '' '' # y) ys)) @
             '']: one or more runners did not exit in time: shutdown cause: '' @ m)
            [ErrTimeout, Errorf m [w]]))) \<and>
     running st ord = filter (\<lambda>name. name \<in> set g \<and> name \<notin> reported evs) ord \<and>
     set (filter (\<lambda>name. name \<in> set g \<and> name \<notin> reported evs) ord) = set g - reported evs \<and>
     distinct (filter (\<lambda>name. name \<in> set g \<and> name \<notin> reported evs) ord)"
proof (intro impI conjI)
  assume h: "loop c (length g) (start g) evs = Waiting n st \<and> exitTimeout st \<and> range_exited st ord"
  then have w: "loop c (length g) (start g) evs = Waiting n st" and t: "exitTimeout st"
    and o: "range_exited st ord"
    by simp_all
  let ?names = "filter (\<lambda>name. name \<in> set g \<and> name \<notin> reported evs) ord"
  from w show r: "running st ord = ?names" by (rule running_Waiting)
  from range_exited_Waiting [OF w o] show "set ?names = set g - reported evs" by auto
  from range_exited_Waiting [OF w o] show "distinct ?names" by simp
  from w have e: "end_state (loop c (length g) (start g) evs) = st" by simp
  with armed_inv_loop [of c "length g" g evs] t obtain x where x: "cause st = Some x"
    by (auto simp: armed_inv_def)
  with e cause_Errorf [of c g evs x] obtain m w' where m: "x = Errorf m [w']" by auto
  from loop_Waiting_pos [OF w] obtain k where k: "n = Suc k" by (cases n) auto
  from loop_append [OF w, of "Timer ord # rest"] k t
  have "loop c (length g) (start g) (evs @ Timer ord # rest) = TimedOut (on_timeout st ord) st"
    by simp
  then have "fst (Group_run g c inCtxErr (evs @ Timer ord # rest)) =
      Returns (Some (timeout_error ?names (Some (Errorf m [w']))))"
    using x m r by (simp add: Group_run_def returning_def on_timeout_def)
  then have "fst (Group_run g c inCtxErr (evs @ Timer ord # rest)) =
      Returns (Some (Errorf
            (''['' @
               (case ?names of [] \<Rightarrow> [] | x # ys \<Rightarrow> x @ concat (map (\<lambda>y. CHR '' '' # y) ys)) @
             '']: one or more runners did not exit in time: shutdown cause: '' @ m)
            [ErrTimeout, Errorf m [w']]))"
    by (simp only: timeout_error_text)
  with x m show "\<exists>m w. cause st = Some (Errorf m [w]) \<and>
        fst (Group_run g c inCtxErr (evs @ Timer ord # rest)) =
          Returns (Some (Errorf
            (''['' @
               (case ?names of [] \<Rightarrow> [] | x # ys \<Rightarrow> x @ concat (map (\<lambda>y. CHR '' '' # y) ys)) @
             '']: one or more runners did not exit in time: shutdown cause: '' @ m)
            [ErrTimeout, Errorf m [w]]))"
    by blast
qed

lemma loop_abc_waiting:
  "loop True (length [''a'', ''b'', ''c'']) (start [''a'', ''b'', ''c''])
     [Recv \<lparr>runner = ''a'', err = Some (New ''boom'')\<rparr>] =
   Waiting 2
     \<lparr>exited = [(''a'', True), (''b'', False), (''c'', False)],
      cause = Some (Errorf ''run.Group[a]: boom'' [New ''boom'']),
      exitTimeout = True, cancelled = True\<rparr>"
  by (simp add: start_def on_recv_def group_error_def numeral_2_eq_2)

theorem timeout_names_running_members_witness:
  "loop True (length [''a'', ''b'', ''c'']) (start [''a'', ''b'', ''c''])
     [Recv \<lparr>runner = ''a'', err = Some (New ''boom'')\<rparr>] =
   Waiting 2
     \<lparr>exited = [(''a'', True), (''b'', False), (''c'', False)],
      cause = Some (Errorf ''run.Group[a]: boom'' [New ''boom'']),
      exitTimeout = True, cancelled = True\<rparr> \<and>
   range_exited
     \<lparr>exited = [(''a'', True), (''b'', False), (''c'', False)],
      cause = Some (Errorf ''run.Group[a]: boom'' [New ''boom'']),
      exitTimeout = True, cancelled = True\<rparr> [''c'', ''a'', ''b''] \<and>
   fst (Group_run [''a'', ''b'', ''c''] True None
     ([Recv \<lparr>runner = ''a'', err = Some (New ''boom'')\<rparr>] @ Timer [''c'', ''a'', ''b''] #
      [Recv \<lparr>runner = ''b'', err = None\<rparr>])) =
   Returns (Some (Errorf
     ''[c b]: one or more runners did not exit in time: shutdown cause: run.Group[a]: boom''
     [ErrTimeout, Errorf ''run.Group[a]: boom'' [New ''boom'']])) \<and>
   fst (Group_run [''a'', ''b'', ''c''] True None
     ([Recv \<lparr>runner = ''a'', err = Some (New ''boom'')\<rparr>] @ Timer [''b'', ''c'', ''a''] # [])) =
   Returns (Some (Errorf
     ''[b c]: one or more runners did not exit in time: shutdown cause: run.Group[a]: boom''
     [ErrTimeout, Errorf ''run.Group[a]: boom'' [New ''boom'']])) \<and>
   {''b'', ''c''} = set [''a'', ''b'', ''c''] - reported [Recv \<lparr>runner = ''a'', err = Some (New ''boom'')\<rparr>]"
proof -
  let ?st = "\<lparr>exited = [(''a'', True), (''b'', False), (''c'', False)],
      cause = Some (Errorf ''run.Group[a]: boom'' [New ''boom'']),
      exitTimeout = True, cancelled = True\<rparr>"
  let ?evs = "[Recv \<lparr>runner = ''a'', err = Some (New ''boom'')\<rparr>]"
  have o: "range_exited ?st [''c'', ''a'', ''b'']" "range_exited ?st [''b'', ''c'', ''a'']"
    by (simp_all add: range_exited_def)
  have t: "exitTimeout ?st" by simp
  have f: "filter (\<lambda>name. name \<in> set [''a'', ''b'', ''c''] \<and> name \<notin> reported ?evs) [''c'', ''a'', ''b''] =
      [''c'', ''b'']"
    "filter (\<lambda>name. name \<in> set [''a'', ''b'', ''c''] \<and> name \<notin> reported ?evs) [''b'', ''c'', ''a''] =
      [''b'', ''c'']"
    by (simp_all add: reported_def)
  have s: "{''b'', ''c''} = set [''a'', ''b'', ''c''] - reported ?evs"
    by (auto simp: reported_def)
  from timeout_names_running_members [of True "[''a'', ''b'', ''c'']" ?evs 2 ?st
      "[''c'', ''a'', ''b'']" None "[Recv \<lparr>runner = ''b'', err = None\<rparr>]"]
    loop_abc_waiting o t f
  have 1: "fst (Group_run [''a'', ''b'', ''c''] True None
     (?evs @ Timer [''c'', ''a'', ''b''] # [Recv \<lparr>runner = ''b'', err = None\<rparr>])) =
   Returns (Some (Errorf
     ''[c b]: one or more runners did not exit in time: shutdown cause: run.Group[a]: boom''
     [ErrTimeout, Errorf ''run.Group[a]: boom'' [New ''boom'']]))"
    by simp
  from timeout_names_running_members [of True "[''a'', ''b'', ''c'']" ?evs 2 ?st
      "[''b'', ''c'', ''a'']" None "[]"]
    loop_abc_waiting o t f
  have 2: "fst (Group_run [''a'', ''b'', ''c''] True None (?evs @ Timer [''b'', ''c'', ''a''] # [])) =
   Returns (Some (Errorf
     ''[b c]: one or more runners did not exit in time: shutdown cause: run.Group[a]: boom''
     [ErrTimeout, Errorf ''run.Group[a]: boom'' [New ''boom'']]))"
    by simp
  have v: "fst (Group_run [''a'', ''b'', ''c''] True None
     (?evs @ Timer [''c'', ''a'', ''b''] # [Recv \<lparr>runner = ''b'', err = None\<rparr>])) =
   Returns (Some (Errorf
     ''[c b]: one or more runners did not exit in time: shutdown cause: run.Group[a]: boom''
     [ErrTimeout, Errorf ''run.Group[a]: boom'' [New ''boom'']]))"
    "fst (Group_run [''a'', ''b'', ''c''] True None (?evs @ Timer [''b'', ''c'', ''a''] # [])) =
   Returns (Some (Errorf
     ''[b c]: one or more runners did not exit in time: shutdown cause: run.Group[a]: boom''
     [ErrTimeout, Errorf ''run.Group[a]: boom'' [New ''boom'']]))"
    by (simp_all add: Group_run_def returning_def start_def on_recv_def group_error_def on_timeout_def
        running_def timeout_error_def fmt_s_list_def numeral_3_eq_3)
  from 1 2 v loop_abc_waiting o s show ?thesis by simp
qed

lemma cause_wrapped_in_return:
  assumes c: "cause (end_state (loop c (length g) (start g) evs)) = Some x"
    and r: "fst (Group_run g c inCtxErr evs) = Returns r"
    and n: "\<not> (is_Completed (loop c (length g) (start g) evs) \<and> inCtxErr = Some Canceled)"
  shows "\<exists>y. r = Some y \<and> errors_Is y x"
proof (cases "loop c (length g) (start g) evs")
  case (Completed st)
  with c have x: "cause st = Some x" by simp
  from Completed n have "inCtxErr \<noteq> Some Canceled" by simp
  with Completed r x have "r = Some x" by (simp add: Group_run_def returning_def)
  then show ?thesis by simp
next
  case (TimedOut e st)
  from loop_TimedOut [OF this] obtain ord where "e = on_timeout st ord" by blast
  with TimedOut c r have "r = Some (timeout_error (running st ord) (Some x))"
    by (auto simp add: Group_run_def returning_def on_timeout_def)
  then show ?thesis by (simp add: errors_Is_timeout_error)
next
  case (Waiting m st)
  with r show ?thesis by (simp add: Group_run_def)
qed

text \<open>
  C1, as the code has it. For a Group that cancels on exit the recorded cause is the first
  qualifying exit among the entries the loop takes, and a recorded cause survives
  whatever the loop takes later. If the first entry carries an error \<open>e\<close>, the cause
  is \<^verbatim>\<open>run.Group[name]: e\<close>, the derived context is cancelled, and what
  \<^verbatim>\<open>Group.run\<close> returns wraps that cause and \<open>e\<close>, except when the loop
  completes while \<^verbatim>\<open>inCtx.Err()\<close> is \<^verbatim>\<open>context.Canceled\<close>. When the loop completes,
  \<^verbatim>\<open>Group.run\<close> returns the recorded cause, or nil if \<^verbatim>\<open>inCtx.Err()\<close> is
  \<^verbatim>\<open>context.Canceled\<close>. A Group with no members returns nil at once.
\<close>

theorem first_exit_is_the_cause:
  "cause (end_state (loop True (length g) (start g) evs)) =
     first_cause True (take (length g) (reports evs)) \<and>
   (cause st = Some x \<longrightarrow> cause (end_state (loop True n st later)) = Some x) \<and>
   (g \<noteq> [] \<and> reports evs = gerr # gs \<and> err gerr = Some e \<longrightarrow>
      cause (end_state (loop True (length g) (start g) evs)) = Some (group_error (runner gerr) e) \<and>
      cancelled (end_state (loop True (length g) (start g) evs)) \<and>
      (fst (Group_Run g inCtxErr evs) = Returns r \<and>
       \<not> (is_Completed (loop True (length g) (start g) evs) \<and> inCtxErr = Some Canceled) \<longrightarrow>
         (\<exists>y. r = Some y \<and> errors_Is y (group_error (runner gerr) e) \<and> errors_Is y e))) \<and>
   (loop True (length g) (start g) evs = Completed st' \<longrightarrow>
      fst (Group_Run g inCtxErr evs) =
        Returns (if inCtxErr = Some Canceled then None else cause st')) \<and>
   fst (Group_Run [] inCtxErr evs) = Returns None"
proof (intro conjI impI)
  show "cause (end_state (loop True (length g) (start g) evs)) =
     first_cause True (take (length g) (reports evs))"
    by (rule cause_Group_loop)
next
  assume "cause st = Some x"
  then show "cause (end_state (loop True n st later)) = Some x" by (rule cause_kept)
next
  assume h: "g \<noteq> [] \<and> reports evs = gerr # gs \<and> err gerr = Some e"
  then obtain k where k: "length g = Suc k" by (cases g) auto
  with h have "first_cause True (take (length g) (reports evs)) = Some (group_error (runner gerr) e)"
    by simp
  then show c: "cause (end_state (loop True (length g) (start g) evs)) = Some (group_error (runner gerr) e)"
    by (simp add: cause_Group_loop)
  then show "cancelled (end_state (loop True (length g) (start g) evs))"
    by (simp add: cancelled_loop_iff)
  assume "fst (Group_Run g inCtxErr evs) = Returns r \<and>
       \<not> (is_Completed (loop True (length g) (start g) evs) \<and> inCtxErr = Some Canceled)"
  then have "fst (Group_run g True inCtxErr evs) = Returns r \<and>
       \<not> (is_Completed (loop True (length g) (start g) evs) \<and> inCtxErr = Some Canceled)"
    by (simp add: Group_Run_def)
  with cause_wrapped_in_return [OF c, of inCtxErr r]
  obtain y where y: "r = Some y" "errors_Is y (group_error (runner gerr) e)" by blast
  from y(2) errors_Is_group_error have "errors_Is y e" by (rule errors_Is_trans)
  with y show "\<exists>y. r = Some y \<and> errors_Is y (group_error (runner gerr) e) \<and> errors_Is y e"
    by blast
next
  assume "loop True (length g) (start g) evs = Completed st'"
  then show "fst (Group_Run g inCtxErr evs) =
        Returns (if inCtxErr = Some Canceled then None else cause st')"
    by (simp add: Group_Run_def Group_run_def returning_def)
next
  show "fst (Group_Run [] inCtxErr evs) = Returns None"
    by (simp add: Group_Run_def Group_run_def returning_def start_def)
qed

text \<open>
  The claim as stated fails: the only member reports an error, so every member has
  reported before any timer fires and the cause is recorded, yet with \<^verbatim>\<open>inCtx.Err()\<close>
  equal to \<^verbatim>\<open>context.Canceled\<close> the Group returns nil, not the recorded cause.
\<close>

theorem recorded_cause_not_returned_counterexample:
  "is_Completed (loop True (length [''a'']) (start [''a''])
      [Recv \<lparr>runner = ''a'', err = Some (New ''boom'')\<rparr>]) \<and>
   cause (end_state (loop True (length [''a'']) (start [''a''])
      [Recv \<lparr>runner = ''a'', err = Some (New ''boom'')\<rparr>])) =
     Some (Errorf ''run.Group[a]: boom'' [New ''boom'']) \<and>
   fst (Group_Run [''a''] (Some Canceled) [Recv \<lparr>runner = ''a'', err = Some (New ''boom'')\<rparr>]) =
     Returns None \<and>
   fst (Group_Run [''a''] (Some Canceled) [Recv \<lparr>runner = ''a'', err = Some (New ''boom'')\<rparr>]) \<noteq>
     Returns (cause (end_state (loop True (length [''a'']) (start [''a''])
      [Recv \<lparr>runner = ''a'', err = Some (New ''boom'')\<rparr>])))"
  using loop_a_boom by (simp add: Group_Run_def Group_run_def returning_def)

theorem first_exit_is_the_cause_witness:
  "[''foo'', ''bar''] \<noteq> [] \<and>
   reports [Recv \<lparr>runner = ''foo'', err = Some (New ''inner'')\<rparr>, Timer [''foo'', ''bar'']] =
     \<lparr>runner = ''foo'', err = Some (New ''inner'')\<rparr> # [] \<and>
   cause (end_state (loop True (length [''foo'', ''bar'']) (start [''foo'', ''bar''])
     [Recv \<lparr>runner = ''foo'', err = Some (New ''inner'')\<rparr>, Timer [''foo'', ''bar'']])) =
     Some (Errorf ''run.Group[foo]: inner'' [New ''inner'']) \<and>
   cancelled (end_state (loop True (length [''foo'', ''bar'']) (start [''foo'', ''bar''])
     [Recv \<lparr>runner = ''foo'', err = Some (New ''inner'')\<rparr>, Timer [''foo'', ''bar'']])) \<and>
   fst (Group_Run [''foo'', ''bar''] None
     [Recv \<lparr>runner = ''foo'', err = Some (New ''inner'')\<rparr>, Timer [''foo'', ''bar'']]) =
     Returns (Some (Errorf
       ''[bar]: one or more runners did not exit in time: shutdown cause: run.Group[foo]: inner''
       [ErrTimeout, Errorf ''run.Group[foo]: inner'' [New ''inner'']])) \<and>
   errors_Is (Errorf
       ''[bar]: one or more runners did not exit in time: shutdown cause: run.Group[foo]: inner''
       [ErrTimeout, Errorf ''run.Group[foo]: inner'' [New ''inner'']]) (New ''inner'') \<and>
   cause (end_state (loop True 1
     \<lparr>exited = [(''foo'', True), (''bar'', False)],
      cause = Some (Errorf ''run.Group[foo]: inner'' [New ''inner'']),
      exitTimeout = True, cancelled = True\<rparr> [Recv \<lparr>runner = ''bar'', err = Some (New ''late'')\<rparr>])) =
     Some (Errorf ''run.Group[foo]: inner'' [New ''inner'']) \<and>
   loop True (length [''a'']) (start [''a'']) [Recv \<lparr>runner = ''a'', err = Some (New ''boom'')\<rparr>] =
     Completed \<lparr>exited = [(''a'', True)], cause = Some (Errorf ''run.Group[a]: boom'' [New ''boom'']),
                exitTimeout = True, cancelled = True\<rparr> \<and>
   fst (Group_Run [''a''] None [Recv \<lparr>runner = ''a'', err = Some (New ''boom'')\<rparr>]) =
     Returns (Some (Errorf ''run.Group[a]: boom'' [New ''boom'']))"
proof -
  let ?st = "\<lparr>exited = [(''foo'', True), (''bar'', False)],
      cause = Some (Errorf ''run.Group[foo]: inner'' [New ''inner'']),
      exitTimeout = True, cancelled = True\<rparr>"
  let ?sa = "\<lparr>exited = [(''a'', True)], cause = Some (Errorf ''run.Group[a]: boom'' [New ''boom'']),
                exitTimeout = True, cancelled = True\<rparr>"
  let ?t = "Errorf
       ''[bar]: one or more runners did not exit in time: shutdown cause: run.Group[foo]: inner''
       [ErrTimeout, Errorf ''run.Group[foo]: inner'' [New ''inner'']]"
  have run: "fst (Group_Run [''foo'', ''bar''] None
     [Recv \<lparr>runner = ''foo'', err = Some (New ''inner'')\<rparr>, Timer [''foo'', ''bar'']]) = Returns (Some ?t)"
    using loop_foo_timer by (simp add: Group_Run_def Group_run_def returning_def)
  have nc: "\<not> (is_Completed (loop True (length [''foo'', ''bar'']) (start [''foo'', ''bar''])
     [Recv \<lparr>runner = ''foo'', err = Some (New ''inner'')\<rparr>, Timer [''foo'', ''bar'']]) \<and> None = Some Canceled)"
    by simp
  have st: "cause ?st = Some (Errorf ''run.Group[foo]: inner'' [New ''inner''])" by simp
  have ge: "group_error ''foo'' (New ''inner'') = Errorf ''run.Group[foo]: inner'' [New ''inner'']"
    by (simp add: group_error_def)
  note a = first_exit_is_the_cause [of "[''foo'', ''bar'']"
      "[Recv \<lparr>runner = ''foo'', err = Some (New ''inner'')\<rparr>, Timer [''foo'', ''bar'']]"
      ?st "Errorf ''run.Group[foo]: inner'' [New ''inner'']" 1
      "[Recv \<lparr>runner = ''bar'', err = Some (New ''late'')\<rparr>]"
      "\<lparr>runner = ''foo'', err = Some (New ''inner'')\<rparr>" "[]" "New ''inner''" None "Some ?t" ?sa]
  note b = first_exit_is_the_cause [of "[''a'']"
      "[Recv \<lparr>runner = ''a'', err = Some (New ''boom'')\<rparr>]" _ _ _ _ _ _ _ None _ ?sa]
  from a run nc st ge have 1: "cause (end_state (loop True (length [''foo'', ''bar'']) (start [''foo'', ''bar''])
     [Recv \<lparr>runner = ''foo'', err = Some (New ''inner'')\<rparr>, Timer [''foo'', ''bar'']])) =
     Some (Errorf ''run.Group[foo]: inner'' [New ''inner'']) \<and>
   cancelled (end_state (loop True (length [''foo'', ''bar'']) (start [''foo'', ''bar''])
     [Recv \<lparr>runner = ''foo'', err = Some (New ''inner'')\<rparr>, Timer [''foo'', ''bar'']])) \<and>
   errors_Is ?t (New ''inner'') \<and>
   cause (end_state (loop True 1 ?st [Recv \<lparr>runner = ''bar'', err = Some (New ''late'')\<rparr>])) =
     Some (Errorf ''run.Group[foo]: inner'' [New ''inner''])"
    by simp
  from b loop_a_boom have 2: "fst (Group_Run [''a''] None [Recv \<lparr>runner = ''a'', err = Some (New ''boom'')\<rparr>]) =
     Returns (Some (Errorf ''run.Group[a]: boom'' [New ''boom'']))"
    by simp
  from 1 2 run loop_a_boom show ?thesis by simp
qed

lemma errors_Is_recovered: "errors_Is (recovered pre (PanicError e)) e"
  by simp

text \<open>
  C5, as the code has it. A member that panics with payload \<open>p\<close> does not end the
  process: its goroutine sends one entry, under the member's name, whose error is
  \<^verbatim>\<open>run.Group recover: p\<close>; \<^verbatim>\<open>Go\<close> likewise sends \<^verbatim>\<open>run.Go recover: p\<close> on its
  channel. The error made of a payload that is an error wraps it, and the error made
  of any other payload ends in the payload's text and wraps nothing. When that entry is
  the first qualifying exit of those the loop takes, what \<^verbatim>\<open>Group.run\<close> returns wraps
  the error made of the payload (and with it a payload that is an error), except when
  the loop completes while \<^verbatim>\<open>inCtx.Err()\<close> is \<^verbatim>\<open>context.Canceled\<close>.
\<close>

theorem panic_becomes_error:
  "member name (Panic p) = Sends [\<lparr>runner = name, err = Some (recovered ''run.Group recover'' p)\<rparr>] \<and>
   (r ctx w = (Panic p, w') \<longrightarrow> Go r ctx w = (Sends [Some (recovered ''run.Go recover'' p)], w')) \<and>
   recovered pre (PanicError e) = Errorf (pre @ '': '' @ Error e) [e] \<and>
   errors_Is (recovered pre (PanicError e)) e \<and>
   recovered pre (PanicValue v) = Errorf (pre @ '': '' @ v) [] \<and>
   (first_cause c (take (length g) (reports evs)) =
      Some (group_error name (recovered ''run.Group recover'' p)) \<and>
    fst (Group_run g c inCtxErr evs) = Returns res \<and>
    \<not> (is_Completed (loop c (length g) (start g) evs) \<and> inCtxErr = Some Canceled) \<longrightarrow>
      (\<exists>y. res = Some y \<and> errors_Is y (recovered ''run.Group recover'' p) \<and>
           (\<forall>e'. p = PanicError e' \<longrightarrow> errors_Is y e')))"
proof (intro conjI impI)
  assume h: "first_cause c (take (length g) (reports evs)) =
      Some (group_error name (recovered ''run.Group recover'' p)) \<and>
    fst (Group_run g c inCtxErr evs) = Returns res \<and>
    \<not> (is_Completed (loop c (length g) (start g) evs) \<and> inCtxErr = Some Canceled)"
  then have "cause (end_state (loop c (length g) (start g) evs)) =
      Some (group_error name (recovered ''run.Group recover'' p))"
    by (simp add: cause_Group_loop)
  from cause_wrapped_in_return [OF this, of inCtxErr res] h
  obtain y where y: "res = Some y" "errors_Is y (group_error name (recovered ''run.Group recover'' p))"
    by blast
  from y(2) errors_Is_group_error have r: "errors_Is y (recovered ''run.Group recover'' p)"
    by (rule errors_Is_trans)
  have "errors_Is y e'" if "p = PanicError e'" for e'
    using r errors_Is_recovered [of "''run.Group recover''" e'] that
    by (auto intro: errors_Is_trans)
  with y r show "\<exists>y. res = Some y \<and> errors_Is y (recovered ''run.Group recover'' p) \<and>
           (\<forall>e'. p = PanicError e' \<longrightarrow> errors_Is y e')"
    by blast
next
  assume "r ctx w = (Panic p, w')"
  then show "Go r ctx w = (Sends [Some (recovered ''run.Go recover'' p)], w')"
    by (simp add: Go_def)
qed simp_all

text \<open>
  The claim as stated fails: member \<open>b\<close> panics with an error, but the entry of
  member \<open>a\<close> was taken first, and the error the Group returns does not contain the
  payload.
\<close>

theorem panic_payload_lost_counterexample:
  "member ''b'' (Panic (PanicError (New ''boom''))) =
     Sends [\<lparr>runner = ''b'', err = Some (Errorf ''run.Group recover: boom'' [New ''boom''])\<rparr>] \<and>
   fst (Group_run [''a'', ''b''] True None
     [Recv \<lparr>runner = ''a'', err = Some (New ''first'')\<rparr>,
      Recv \<lparr>runner = ''b'', err = Some (Errorf ''run.Group recover: boom'' [New ''boom''])\<rparr>]) =
     Returns (Some (Errorf ''run.Group[a]: first'' [New ''first''])) \<and>
   \<not> errors_Is (Errorf ''run.Group[a]: first'' [New ''first'']) (New ''boom'')"
  by (simp add: Group_run_def start_def on_recv_def group_error_def returning_def)


theorem panic_becomes_error_witness:
  "panicking () 0 = (Panic (PanicError (New ''boom'')), 0) \<and>
   Go panicking () 0 = (Sends [Some (Errorf ''run.Go recover: boom'' [New ''boom''])], 0) \<and>
   first_cause True (take (length [''b'']) (reports
     [Recv \<lparr>runner = ''b'', err = Some (Errorf ''run.Group recover: boom'' [New ''boom''])\<rparr>])) =
     Some (group_error ''b'' (recovered ''run.Group recover'' (PanicError (New ''boom'')))) \<and>
   fst (Group_run [''b''] True None
     [Recv \<lparr>runner = ''b'', err = Some (Errorf ''run.Group recover: boom'' [New ''boom''])\<rparr>]) =
     Returns (Some (Errorf ''run.Group[b]: run.Group recover: boom''
       [Errorf ''run.Group recover: boom'' [New ''boom'']])) \<and>
   errors_Is (Errorf ''run.Group[b]: run.Group recover: boom''
       [Errorf ''run.Group recover: boom'' [New ''boom'']]) (New ''boom'')"
proof -
  let ?evs = "[Recv \<lparr>runner = ''b'', err = Some (Errorf ''run.Group recover: boom'' [New ''boom''])\<rparr>]"
  let ?res = "Errorf ''run.Group[b]: run.Group recover: boom''
       [Errorf ''run.Group recover: boom'' [New ''boom'']]"
  have p: "panicking () 0 = (Panic (PanicError (New ''boom'')), 0)"
    by (simp add: panicking_def)
  have f: "first_cause True (take (length [''b'']) (reports ?evs)) =
     Some (group_error ''b'' (recovered ''run.Group recover'' (PanicError (New ''boom''))))"
    by simp
  have l: "loop True (length [''b'']) (start [''b'']) ?evs =
     Completed \<lparr>exited = [(''b'', True)], cause = Some ?res, exitTimeout = True, cancelled = True\<rparr>"
    by (simp add: start_def on_recv_def group_error_def)
  then have run: "fst (Group_run [''b''] True None ?evs) = Returns (Some ?res)"
    by (simp add: Group_run_def returning_def)
  from l have n: "\<not> (is_Completed (loop True (length [''b'']) (start [''b'']) ?evs) \<and> None = Some Canceled)"
    by simp
  from panic_becomes_error [of "''b''" "PanicError (New ''boom'')" panicking "()" 0 0
      "''run.Group recover''" "New ''boom''" "''x''" True "[''b'']" ?evs None "Some ?res"]
    p f run n
  have "Go panicking () 0 = (Sends [Some (recovered ''run.Go recover'' (PanicError (New ''boom'')))], 0) \<and>
    errors_Is ?res (New ''boom'')"
    by simp
  with p f run show ?thesis by simp
qed

lemma member_Sends:
  "member name out = Sends [gerr] \<Longrightarrow> runner gerr = name \<and> out \<noteq> Blocks"
  by (cases out) auto

lemma member_not_Blocks:
  "out \<noteq> Blocks \<Longrightarrow> \<exists>e. member name out = Sends [\<lparr>runner = name, err = e\<rparr>]"
  by (cases out) auto

lemma reports_append [simp]: "reports (xs @ ys) = reports xs @ reports ys"
  by (induction xs rule: reports.induct) auto

lemma accounted_launch: "accounted g (launch g)"
  by (simp add: accounted_def launch_def)

lemma accounted_act:
  assumes "accounted g s" and "act g c a s = Some s'"
  shows "accounted g s'"
proof (cases a)
  case (Send name out)
  with assms(2) obtain gerr where m: "member name out = Sends [gerr]"
    and n: "name \<in> set (pending s)"
    and s': "s' = s\<lparr>pending := remove1 name (pending s), errs := errs s @ [gerr]\<rparr>"
    by (auto split: if_splits goroutine.splits list.splits)
  from m have "runner gerr = name" by (simp add: member_Sends)
  with assms(1) n s' show ?thesis
    by (simp add: accounted_def)
next
  case Take
  with assms(2) obtain gerr rest where "errs s = gerr # rest"
    and "s' = s\<lparr>errs := rest, taken := taken s @ [Recv gerr]\<rparr>"
    by (auto split: list.splits loop_end.splits)
  with assms(1) show ?thesis by (simp add: accounted_def)
next
  case (Fire ord)
  with assms(2) have "s' = s\<lparr>taken := taken s @ [Timer ord]\<rparr>"
    by (auto split: loop_end.splits if_splits)
  with assms(1) show ?thesis by (simp add: accounted_def)
qed

lemma accounted_exec:
  "accounted g s \<Longrightarrow> exec g c acts s = Some s' \<Longrightarrow> accounted g s'"
proof (induction acts arbitrary: s)
  case Nil
  then show ?case by simp
next
  case (Cons a acts)
  from Cons.prems(2) obtain s1 where a: "act g c a s = Some s1" and r: "exec g c acts s1 = Some s'"
    by (auto split: option.splits)
  from Cons.prems(1) a have "accounted g s1" by (rule accounted_act)
  then show ?case using r by (rule Cons.IH)
qed

lemma accounted_room:
  assumes "accounted g s" and "name \<in> set (pending s)"
  shows "length (errs s) < length g"
proof -
  from assms(1) have "size (mset (pending s) + mset (map runner (errs s)) +
      mset (map runner (reports (taken s)))) = size (mset g)"
    by (simp add: accounted_def)
  then have "length (pending s) + length (errs s) + length (reports (taken s)) = length g"
    by simp
  moreover from assms(2) have "0 < length (pending s)" by (cases "pending s") auto
  ultimately show ?thesis by arith
qed

text \<open>
  C10. The goroutine of a member sends exactly one entry, under the member's name, and
  the entry carries how the member's \<^verbatim>\<open>Run\<close> ended: the error it returned (nil
  included), or, after a panic, the error \<^verbatim>\<open>run.Group recover: ...\<close> made from the
  panic's value, which wraps that value when it is an error. However the members and
  the loop have taken turns, every member is accounted for once (pending, or one entry
  in the channel, or one entry taken by the loop), the channel holds fewer than
  \<^verbatim>\<open>len(g)\<close> entries while a member is pending, and so the send of a pending member
  can happen with that very entry: it finds room in the channel, whether or not the
  loop still reads.
\<close>

theorem member_send_never_blocks:
  "member name (Return e) = Sends [\<lparr>runner = name, err = e\<rparr>] \<and>
   member name (Panic (PanicError pe)) =
     Sends [\<lparr>runner = name, err = Some (Errorf (''run.Group recover: '' @ Error pe) [pe])\<rparr>] \<and>
   member name (Panic (PanicValue pv)) =
     Sends [\<lparr>runner = name, err = Some (Errorf (''run.Group recover: '' @ pv) [])\<rparr>] \<and>
   (exec g c acts (launch g) = Some s \<longrightarrow>
      accounted g s \<and>
      mset (pending s) + mset (map runner (errs s)) + mset (map runner (reports (taken s))) = mset g \<and>
      (name \<in> set (pending s) \<longrightarrow>
         length (errs s) < length g \<and>
         act g c (Send name (Return e)) s =
            Some (s\<lparr>pending := remove1 name (pending s),
                   errs := errs s @ [\<lparr>runner = name, err = e\<rparr>]\<rparr>) \<and>
         act g c (Send name (Panic (PanicError pe))) s =
            Some (s\<lparr>pending := remove1 name (pending s),
                   errs := errs s @
                     [\<lparr>runner = name, err = Some (Errorf (''run.Group recover: '' @ Error pe) [pe])\<rparr>]\<rparr>) \<and>
         act g c (Send name (Panic (PanicValue pv))) s =
            Some (s\<lparr>pending := remove1 name (pending s),
                   errs := errs s @
                     [\<lparr>runner = name, err = Some (Errorf (''run.Group recover: '' @ pv) [])\<rparr>]\<rparr>)))"
proof -
  have m: "member name (Return e) = Sends [\<lparr>runner = name, err = e\<rparr>]"
    "member name (Panic (PanicError pe)) =
       Sends [\<lparr>runner = name, err = Some (Errorf (''run.Group recover: '' @ Error pe) [pe])\<rparr>]"
    "member name (Panic (PanicValue pv)) =
       Sends [\<lparr>runner = name, err = Some (Errorf (''run.Group recover: '' @ pv) [])\<rparr>]"
    by simp_all
  have s: "accounted g s \<and>
      mset (pending s) + mset (map runner (errs s)) + mset (map runner (reports (taken s))) = mset g \<and>
      (name \<in> set (pending s) \<longrightarrow>
         length (errs s) < length g \<and>
         act g c (Send name (Return e)) s =
            Some (s\<lparr>pending := remove1 name (pending s),
                   errs := errs s @ [\<lparr>runner = name, err = e\<rparr>]\<rparr>) \<and>
         act g c (Send name (Panic (PanicError pe))) s =
            Some (s\<lparr>pending := remove1 name (pending s),
                   errs := errs s @
                     [\<lparr>runner = name, err = Some (Errorf (''run.Group recover: '' @ Error pe) [pe])\<rparr>]\<rparr>) \<and>
         act g c (Send name (Panic (PanicValue pv))) s =
            Some (s\<lparr>pending := remove1 name (pending s),
                   errs := errs s @
                     [\<lparr>runner = name, err = Some (Errorf (''run.Group recover: '' @ pv) [])\<rparr>]\<rparr>))"
    if x: "exec g c acts (launch g) = Some s"
  proof -
    from accounted_launch x have a: "accounted g s" by (rule accounted_exec)
    then have u: "mset (pending s) + mset (map runner (errs s)) + mset (map runner (reports (taken s))) = mset g"
      by (simp add: accounted_def)
    have r: "length (errs s) < length g" if "name \<in> set (pending s)"
      using a that by (blast intro: accounted_room)
    from a u r show ?thesis by auto
  qed
  from m s show ?thesis by blast
qed

lemma exec_foo_timeout:
  "exec [''foo'', ''bar''] True [Send ''foo'' (Return (Some (New ''inner''))), Take, Fire [''foo'', ''bar'']]
     (launch [''foo'', ''bar'']) =
   Some \<lparr>pending = [''bar''], errs = [],
         taken = [Recv \<lparr>runner = ''foo'', err = Some (New ''inner'')\<rparr>, Timer [''foo'', ''bar'']]\<rparr>"
  by (simp add: launch_def start_def on_recv_def)

theorem member_send_never_blocks_witness:
  "member ''bar'' (Return None) = Sends [\<lparr>runner = ''bar'', err = None\<rparr>] \<and>
   member ''bar'' (Panic (PanicError (New ''boom''))) =
     Sends [\<lparr>runner = ''bar'', err = Some (Errorf ''run.Group recover: boom'' [New ''boom''])\<rparr>] \<and>
   member ''bar'' (Panic (PanicValue ''bad state'')) =
     Sends [\<lparr>runner = ''bar'', err = Some (Errorf ''run.Group recover: bad state'' [])\<rparr>] \<and>
   exec [''foo'', ''bar''] True [Send ''foo'' (Return (Some (New ''inner''))), Take, Fire [''foo'', ''bar'']]
     (launch [''foo'', ''bar'']) =
   Some \<lparr>pending = [''bar''], errs = [],
         taken = [Recv \<lparr>runner = ''foo'', err = Some (New ''inner'')\<rparr>, Timer [''foo'', ''bar'']]\<rparr> \<and>
   \<not> is_Completed (loop True (length [''foo'', ''bar'']) (start [''foo'', ''bar''])
        [Recv \<lparr>runner = ''foo'', err = Some (New ''inner'')\<rparr>, Timer [''foo'', ''bar'']]) \<and>
   fst (Group_run [''foo'', ''bar''] True None
        [Recv \<lparr>runner = ''foo'', err = Some (New ''inner'')\<rparr>, Timer [''foo'', ''bar'']]) \<noteq> NoReturn \<and>
   ''bar'' \<in> set (pending \<lparr>pending = [''bar''], errs = [],
         taken = [Recv \<lparr>runner = ''foo'', err = Some (New ''inner'')\<rparr>, Timer [''foo'', ''bar'']]\<rparr>) \<and>
   accounted [''foo'', ''bar''] \<lparr>pending = [''bar''], errs = [],
         taken = [Recv \<lparr>runner = ''foo'', err = Some (New ''inner'')\<rparr>, Timer [''foo'', ''bar'']]\<rparr> \<and>
   act [''foo'', ''bar''] True (Send ''bar'' (Return None))
     \<lparr>pending = [''bar''], errs = [],
       taken = [Recv \<lparr>runner = ''foo'', err = Some (New ''inner'')\<rparr>, Timer [''foo'', ''bar'']]\<rparr> =
   Some \<lparr>pending = [], errs = [\<lparr>runner = ''bar'', err = None\<rparr>],
         taken = [Recv \<lparr>runner = ''foo'', err = Some (New ''inner'')\<rparr>, Timer [''foo'', ''bar'']]\<rparr> \<and>
   act [''foo'', ''bar''] True (Send ''bar'' (Panic (PanicError (New ''boom''))))
     \<lparr>pending = [''bar''], errs = [],
       taken = [Recv \<lparr>runner = ''foo'', err = Some (New ''inner'')\<rparr>, Timer [''foo'', ''bar'']]\<rparr> =
   Some \<lparr>pending = [],
         errs = [\<lparr>runner = ''bar'', err = Some (Errorf ''run.Group recover: boom'' [New ''boom''])\<rparr>],
         taken = [Recv \<lparr>runner = ''foo'', err = Some (New ''inner'')\<rparr>, Timer [''foo'', ''bar'']]\<rparr> \<and>
   act [''foo'', ''bar''] True (Send ''bar'' (Panic (PanicValue ''bad state'')))
     \<lparr>pending = [''bar''], errs = [],
       taken = [Recv \<lparr>runner = ''foo'', err = Some (New ''inner'')\<rparr>, Timer [''foo'', ''bar'']]\<rparr> =
   Some \<lparr>pending = [],
         errs = [\<lparr>runner = ''bar'', err = Some (Errorf ''run.Group recover: bad state'' [])\<rparr>],
         taken = [Recv \<lparr>runner = ''foo'', err = Some (New ''inner'')\<rparr>, Timer [''foo'', ''bar'']]\<rparr>"
proof -
  let ?s = "\<lparr>pending = [''bar''], errs = [],
         taken = [Recv \<lparr>runner = ''foo'', err = Some (New ''inner'')\<rparr>, Timer [''foo'', ''bar'']]\<rparr>"
  have p: "''bar'' \<in> set (pending ?s)" by simp
  have t: "\<not> is_Completed (loop True (length [''foo'', ''bar'']) (start [''foo'', ''bar''])
        [Recv \<lparr>runner = ''foo'', err = Some (New ''inner'')\<rparr>, Timer [''foo'', ''bar'']])"
    "fst (Group_run [''foo'', ''bar''] True None
        [Recv \<lparr>runner = ''foo'', err = Some (New ''inner'')\<rparr>, Timer [''foo'', ''bar'']]) \<noteq> NoReturn"
    using loop_foo_timer by (simp_all add: Group_run_def returning_def)
  from member_send_never_blocks [of "''bar''" None "New ''boom''" "''bad state''" "[''foo'', ''bar'']" True
      "[Send ''foo'' (Return (Some (New ''inner''))), Take, Fire [''foo'', ''bar'']]" ?s]
    exec_foo_timeout p
  have u: "member ''bar'' (Return None) = Sends [\<lparr>runner = ''bar'', err = None\<rparr>] \<and>
    member ''bar'' (Panic (PanicError (New ''boom''))) =
      Sends [\<lparr>runner = ''bar'', err = Some (Errorf (''run.Group recover: '' @ Error (New ''boom'')) [New ''boom''])\<rparr>] \<and>
    member ''bar'' (Panic (PanicValue ''bad state'')) =
      Sends [\<lparr>runner = ''bar'', err = Some (Errorf (''run.Group recover: '' @ ''bad state'') [])\<rparr>] \<and>
    accounted [''foo'', ''bar''] ?s \<and>
    act [''foo'', ''bar''] True (Send ''bar'' (Return None)) ?s =
       Some (?s\<lparr>pending := remove1 ''bar'' (pending ?s),
               errs := errs ?s @ [\<lparr>runner = ''bar'', err = None\<rparr>]\<rparr>) \<and>
    act [''foo'', ''bar''] True (Send ''bar'' (Panic (PanicError (New ''boom'')))) ?s =
       Some (?s\<lparr>pending := remove1 ''bar'' (pending ?s),
               errs := errs ?s @
                 [\<lparr>runner = ''bar'', err = Some (Errorf (''run.Group recover: '' @ Error (New ''boom'')) [New ''boom''])\<rparr>]\<rparr>) \<and>
    act [''foo'', ''bar''] True (Send ''bar'' (Panic (PanicValue ''bad state''))) ?s =
       Some (?s\<lparr>pending := remove1 ''bar'' (pending ?s),
               errs := errs ?s @
                 [\<lparr>runner = ''bar'', err = Some (Errorf (''run.Group recover: '' @ ''bad state'') [])\<rparr>]\<rparr>)"
    by blast
  have f: "''run.Group recover: '' @ Error (New ''boom'') = ''run.Group recover: boom''"
    "''run.Group recover: '' @ ''bad state'' = ''run.Group recover: bad state''"
    by simp_all
  from u have v: "member ''bar'' (Return None) = Sends [\<lparr>runner = ''bar'', err = None\<rparr>] \<and>
    member ''bar'' (Panic (PanicError (New ''boom''))) =
      Sends [\<lparr>runner = ''bar'', err = Some (Errorf ''run.Group recover: boom'' [New ''boom''])\<rparr>] \<and>
    member ''bar'' (Panic (PanicValue ''bad state'')) =
      Sends [\<lparr>runner = ''bar'', err = Some (Errorf ''run.Group recover: bad state'' [])\<rparr>] \<and>
    accounted [''foo'', ''bar''] ?s \<and>
    act [''foo'', ''bar''] True (Send ''bar'' (Return None)) ?s =
       Some \<lparr>pending = [], errs = [\<lparr>runner = ''bar'', err = None\<rparr>],
         taken = [Recv \<lparr>runner = ''foo'', err = Some (New ''inner'')\<rparr>, Timer [''foo'', ''bar'']]\<rparr> \<and>
    act [''foo'', ''bar''] True (Send ''bar'' (Panic (PanicError (New ''boom'')))) ?s =
       Some \<lparr>pending = [],
         errs = [\<lparr>runner = ''bar'', err = Some (Errorf ''run.Group recover: boom'' [New ''boom''])\<rparr>],
         taken = [Recv \<lparr>runner = ''foo'', err = Some (New ''inner'')\<rparr>, Timer [''foo'', ''bar'']]\<rparr> \<and>
    act [''foo'', ''bar''] True (Send ''bar'' (Panic (PanicValue ''bad state''))) ?s =
       Some \<lparr>pending = [],
         errs = [\<lparr>runner = ''bar'', err = Some (Errorf ''run.Group recover: bad state'' [])\<rparr>],
         taken = [Recv \<lparr>runner = ''foo'', err = Some (New ''inner'')\<rparr>, Timer [''foo'', ''bar'']]\<rparr>"
    unfolding f by simp
  have w: "member ''bar'' (Panic (PanicError (New ''boom''))) =
      Sends [\<lparr>runner = ''bar'', err = Some (Errorf ''run.Group recover: boom'' [New ''boom''])\<rparr>]"
    "member ''bar'' (Panic (PanicValue ''bad state'')) =
      Sends [\<lparr>runner = ''bar'', err = Some (Errorf ''run.Group recover: bad state'' [])\<rparr>]"
    "act [''foo'', ''bar''] True (Send ''bar'' (Panic (PanicError (New ''boom'')))) ?s =
       Some \<lparr>pending = [],
         errs = [\<lparr>runner = ''bar'', err = Some (Errorf ''run.Group recover: boom'' [New ''boom''])\<rparr>],
         taken = [Recv \<lparr>runner = ''foo'', err = Some (New ''inner'')\<rparr>, Timer [''foo'', ''bar'']]\<rparr>"
    by simp_all
  from v w p t exec_foo_timeout show ?thesis by blast
qed






















text \<open>
  C8 at the failing input. The probe returns an error, so the Sequence of the member
  \<^verbatim>\<open>"ready"\<close> returns \<^verbatim>\<open>sequence [0:2]: not ready\<close> without reaching the runner that
  sends on \<^verbatim>\<open>readych\<close>; nothing is ever sent there and \<^verbatim>\<open>Start\<close> does not return,
  whatever the Group delivers on \<^verbatim>\<open>done\<close>. With a probe that returns nil under a
  context that is not cancelled, \<^verbatim>\<open>Start\<close> returns nil and the closure, which turns an
  error \<open>e\<close> of the Group into \<^verbatim>\<open>run.Start: runner shutdown with error: e\<close> and nil
  into nil; if the context is cancelled by then, \<^verbatim>\<open>Start\<close> returns
  \<^verbatim>\<open>runner not ready: ...\<close> and no closure.
\<close>

theorem Start_blocks_when_probe_fails:
  "Ready_ready probe_fails () \<lparr>ctx_err = None, readych = []\<rparr> =
     (Return (Some (Errorf ''sequence [0:2]: not ready'' [New ''not ready''])),
      \<lparr>ctx_err = None, readych = []\<rparr>) \<and>
   Start probe_fails () \<lparr>ctx_err = None, readych = []\<rparr> d = StartBlocks \<and>
   Start probe_ok () \<lparr>ctx_err = None, readych = []\<rparr> d = StartReturns None True \<and>
   stop (Returns (Some e)) =
     Returns (Some (Errorf (''run.Start: runner shutdown with error: '' @ Error e) [e])) \<and>
   stop (Returns None) = Returns None \<and>
   Start probe_ok () \<lparr>ctx_err = Some Canceled, readych = []\<rparr> (Returns (Some e)) =
     StartReturns (Some (Errorf (''runner not ready: '' @ Error e) [e])) False"
  by (simp add: Start_def Ready_ready_def Sequence_Run_def probe_fails_def probe_ok_def
      publish_def Idle_def stop_def not_ready_def sequence_error_def fmt_d_def digit_def)

end
